theory Spec2Isabelle
  imports Complex_Main
begin

section \<open>Values\<close>

text \<open>
  The program is JavaScript, so every argument of the builder is a dynamically typed value.
  Three layers of values occur:
  \<^item> \<open>tsval\<close>: what the query transport (node-teamspeak) puts into responses and event
    payloads: its parser turns a field that reads as an integer into a number and leaves every
    other field a string;
  \<^item> \<open>prim\<close>: the primitive values of the language (finite numbers only);
  \<^item> \<open>jsval\<close>: primitives, arrays and functions. A function value carries what calling it does.
\<close>

datatype tsval = TNum int | TStr string

datatype prim = PUndefined | PNull | PBool bool | PNum rat | PStr string

datatype error =
    Error string
  | TypeError
  | RangeError
  | QueryError "(string \<times> tsval) list"

text \<open>
  An action callback \<open>(bot, clid) => ...\<close> is opaque. It is described by the operations of the
  bot that it invokes, in order, and by the exception it ends with, if any.
\<close>

datatype op =
    SendPoke prim prim
  | SendMessage prim prim
  | KickClient prim prim
  | JoinChannel prim prim prim

type_synonym action = "prim \<Rightarrow> op list \<times> error option"

datatype jsval = Prim prim | JArr "jsval list" | JFun action

fun prim_of :: "tsval option \<Rightarrow> prim" where
  "prim_of None = PUndefined"
| "prim_of (Some (TNum i)) = PNum (of_int i)"
| "prim_of (Some (TStr s)) = PStr s"

subsection \<open>The lodash predicates and the language's coercions\<close>

fun isEmpty :: "jsval \<Rightarrow> bool" where
  "isEmpty (Prim (PStr s)) = (s = [])"
| "isEmpty (JArr xs) = (xs = [])"
| "isEmpty _ = True"

fun isFunction :: "jsval \<Rightarrow> bool" where
  "isFunction (JFun f) = True"
| "isFunction _ = False"

fun isInteger :: "jsval \<Rightarrow> bool" where
  "isInteger (Prim (PNum r)) = (of_int \<lfloor>r\<rfloor> = r)"
| "isInteger _ = False"

fun isUndefined :: "prim \<Rightarrow> bool" where
  "isUndefined PUndefined = True"
| "isUndefined _ = False"

fun truthy :: "jsval \<Rightarrow> bool" where
  "truthy (Prim PUndefined) = False"
| "truthy (Prim PNull) = False"
| "truthy (Prim (PBool b)) = b"
| "truthy (Prim (PNum r)) = (r \<noteq> 0)"
| "truthy (Prim (PStr s)) = (s \<noteq> [])"
| "truthy (JArr xs) = True"
| "truthy (JFun f) = True"

text \<open>\<open>x !== y\<close> is \<open>\<not> strict_eq x y\<close>, for a primitive \<open>x\<close>: a primitive is never
  identical to an array or a function.\<close>

fun strict_eq :: "prim \<Rightarrow> jsval \<Rightarrow> bool" where
  "strict_eq p (Prim q) = (p = q)"
| "strict_eq p _ = False"

subsection \<open>Computations that change a state and may throw\<close>

text \<open>
  A computation takes the state and gives the state it leaves together with either the error
  it threw (\<open>Inl\<close>) or its value. The same type describes a promise chain: there \<open>Inl\<close> is
  the rejection, \<open>andThen\<close> is \<open>.then\<close> (a callback that throws rejects the chain) and
  \<open>orElse\<close> is \<open>.catch\<close>.
\<close>

type_synonym ('s, 'a) run = "'s \<Rightarrow> (error + 'a) \<times> 's"

definition returns :: "'a \<Rightarrow> ('s, 'a) run" where
  "returns a s = (Inr a, s)"

definition throws :: "error \<Rightarrow> ('s, 'a) run" where
  "throws e s = (Inl e, s)"

definition check :: "error + 'a \<Rightarrow> ('s, 'a) run" where
  "check r s = (r, s)"

definition assign :: "('s \<Rightarrow> 's) \<Rightarrow> ('s, unit) run" where
  "assign u s = (Inr (), u s)"

definition andThen :: "('s, 'a) run \<Rightarrow> ('a \<Rightarrow> ('s, 'b) run) \<Rightarrow> ('s, 'b) run" where
  "andThen m f s = (case m s of (Inl e, s') \<Rightarrow> (Inl e, s') | (Inr a, s') \<Rightarrow> f a s')"

definition orElse :: "('s, 'a) run \<Rightarrow> (error \<Rightarrow> ('s, 'a) run) \<Rightarrow> ('s, 'a) run" where
  "orElse m h s = (case m s of (Inl e, s') \<Rightarrow> h e s' | (Inr a, s') \<Rightarrow> (Inr a, s'))"

fun forEach :: "'a list \<Rightarrow> ('a \<Rightarrow> ('s, unit) run) \<Rightarrow> ('s, unit) run" where
  "forEach [] f = returns ()"
| "forEach (x # xs) f = andThen (f x) (\<lambda>_. forEach xs f)"

section \<open>Factory: the configuration builder\<close>

definition validateString :: "jsval \<Rightarrow> string \<Rightarrow> error + unit" where
  "validateString it message = (if isEmpty it then Inl (Error message) else Inr ())"

definition validateFunction :: "jsval \<Rightarrow> string \<Rightarrow> error + unit" where
  "validateFunction it message = (if \<not> isFunction it then Inl (Error message) else Inr ())"

text \<open>\<open>!isInteger(it) || it <= 0\<close>: the comparison is reached for numbers only, since
  every other value fails \<open>isInteger\<close>.\<close>

definition validatePositiveInteger :: "jsval \<Rightarrow> string \<Rightarrow> error + unit" where
  "validatePositiveInteger it message =
     (case it of
        Prim (PNum r) \<Rightarrow> (if \<not> isInteger it \<or> r \<le> 0 then Inl (Error message) else Inr ())
      | _ \<Rightarrow> Inl (Error message))"

record credentials =
  username :: jsval
  password :: jsval
  botName :: jsval

record actions =
  success :: jsval
  noPerms :: jsval

record connectionInfo =
  address :: jsval
  queryPort :: jsval
  serverPort :: jsval

text \<open>The builder's five properties; \<open>None\<close> is a property that was never assigned.\<close>

record factory =
  f_credentials :: "credentials option"
  f_actions :: "actions option"
  f_connectionInfo :: "connectionInfo option"
  f_channelId :: "jsval option"
  f_allowedGroupIds :: "jsval list option"

definition new_Factory :: factory where
  "new_Factory = \<lparr>f_credentials = None, f_actions = None, f_connectionInfo = None,
     f_channelId = None, f_allowedGroupIds = None\<rparr>"

definition withCredentials :: "jsval \<Rightarrow> jsval \<Rightarrow> jsval \<Rightarrow> (factory, unit) run" where
  "withCredentials u p b =
     andThen (check (validateString u ''Invalid username'')) (\<lambda>_.
     andThen (check (validateString p ''Invalid password'')) (\<lambda>_.
     andThen (check (validateString b ''Invalid bot name'')) (\<lambda>_.
     assign (\<lambda>this. this\<lparr>f_credentials := Some \<lparr>username = u, password = p, botName = b\<rparr>\<rparr>))))"

definition withActions :: "jsval \<Rightarrow> jsval \<Rightarrow> (factory, unit) run" where
  "withActions ok denied =
     andThen (check (validateFunction ok ''Invalid success function'')) (\<lambda>_.
     andThen (check (validateFunction denied ''Invalid noPerms function'')) (\<lambda>_.
     assign (\<lambda>this. this\<lparr>f_actions := Some \<lparr>success = ok, noPerms = denied\<rparr>\<rparr>)))"

definition withConnectionInfo :: "jsval \<Rightarrow> jsval \<Rightarrow> jsval \<Rightarrow> (factory, unit) run" where
  "withConnectionInfo a qp sp =
     andThen (check (validateString a ''Invalid address'')) (\<lambda>_.
     andThen (check (validatePositiveInteger qp ''Invalid query port'')) (\<lambda>_.
     andThen (check (validatePositiveInteger sp ''Invalid server port'')) (\<lambda>_.
     assign (\<lambda>this. this\<lparr>f_connectionInfo :=
       Some \<lparr>address = a, queryPort = qp, serverPort = sp\<rparr>\<rparr>))))"

definition inChannel :: "jsval \<Rightarrow> (factory, unit) run" where
  "inChannel channelId =
     andThen (check (validatePositiveInteger channelId ''Invalid channel id'')) (\<lambda>_.
     assign (\<lambda>this. this\<lparr>f_channelId := Some channelId\<rparr>))"

text \<open>
  \<open>withAllowedGroups(groups = [])\<close>: an argument left out (undefined) is the empty array. Of
  the values modelled only an array has a \<open>forEach\<close>; on any other value the call
  \<open>groups.forEach\<close> is a TypeError.
\<close>

definition withAllowedGroups :: "jsval \<Rightarrow> (factory, unit) run" where
  "withAllowedGroups groups =
     (case (if groups = Prim PUndefined then JArr [] else groups) of
        JArr xs \<Rightarrow>
          andThen (forEach xs (\<lambda>it. check (validatePositiveInteger it ''Invalid group ID''))) (\<lambda>_.
          assign (\<lambda>this. this\<lparr>f_allowedGroupIds := Some xs\<rparr>))
      | _ \<Rightarrow> throws TypeError)"

text \<open>
  \<open>build()\<close>: each test \<open>!this._x\<close> holds for a property never assigned and for a falsy
  value. An object or an array is truthy. The constructor of \<open>Bot\<close> stores its five arguments,
  creates the query client for the address and the query port, and sets \<open>whoami\<close> to null.

  Creating the client, \<open>new TeamSpeakClient(address, queryPort)\<close>, opens the socket with
  \<open>net.connect(port || 10011, host || 'localhost')\<close>, and that call checks the port before it
  returns: a port has to be a number or a string (a TypeError otherwise), and a number has to be
  an integer from 0 to 65535 (a RangeError otherwise). An exception of it leaves the constructor
  of \<open>Bot\<close> and \<open>build\<close>. The builder stores numbers only as query port. A port given as a
  string (read as a number or as the name of a pipe) or as an array (taken for an options object)
  is not looked into: for these the call is taken to return.
\<close>

type_synonym response = "(string \<times> tsval) list option"

record bot =
  b_credentials :: credentials
  b_connectionInfo :: connectionInfo
  b_channelId :: jsval
  b_allowedGroupIds :: "jsval list"
  b_actions :: actions
  b_client :: "jsval \<times> jsval"
  whoami :: response

definition new_TeamSpeakClient :: "jsval \<Rightarrow> jsval \<Rightarrow> error + jsval \<times> jsval" where
  "new_TeamSpeakClient host port =
     (case (if truthy port then port else Prim (PNum 10011)) of
        Prim (PNum r) \<Rightarrow>
          (if of_int \<lfloor>r\<rfloor> = r \<and> 0 \<le> r \<and> r \<le> 65535 then Inr (host, port) else Inl RangeError)
      | Prim (PStr s) \<Rightarrow> Inr (host, port)
      | JArr xs \<Rightarrow> Inr (host, port)
      | _ \<Rightarrow> Inl TypeError)"

definition new_Bot :: "credentials \<Rightarrow> connectionInfo \<Rightarrow> jsval \<Rightarrow> actions \<Rightarrow> jsval list \<Rightarrow> error + bot" where
  "new_Bot c ci ch a g =
     (case new_TeamSpeakClient (address ci) (queryPort ci) of
        Inl e \<Rightarrow> Inl e
      | Inr client \<Rightarrow>
          Inr \<lparr>b_credentials = c, b_connectionInfo = ci, b_channelId = ch, b_allowedGroupIds = g,
               b_actions = a, b_client = client, whoami = None\<rparr>)"

definition build :: "factory \<Rightarrow> error + bot" where
  "build this =
     (case f_credentials this of
        None \<Rightarrow> Inl (Error ''Missing credentials'')
      | Some c \<Rightarrow>
     (case f_actions this of
        None \<Rightarrow> Inl (Error ''Missing actions'')
      | Some a \<Rightarrow>
     (case f_connectionInfo this of
        None \<Rightarrow> Inl (Error ''Missing connection info'')
      | Some ci \<Rightarrow>
     (case f_channelId this of
        None \<Rightarrow> Inl (Error ''Missing channel ID'')
      | Some ch \<Rightarrow>
     (if \<not> truthy ch then Inl (Error ''Missing channel ID'')
      else
     (case f_allowedGroupIds this of
        None \<Rightarrow> Inl (Error ''Missing allowed groups'')
      | Some g \<Rightarrow> new_Bot c ci ch a g))))))"

section \<open>Bot: the session\<close>

text \<open>
  A request is the command, the parameter object (its fields in the order written) and the
  list of options. What the bot does that can be seen from outside is recorded, in order, in
  a trace. \<open>_send\<close> is the promisified \<open>send\<close> of the query client, which is not part of
  the program. It is a parameter here, the transport: it answers the requests sent so far, the
  last being the one to answer, with a rejection or with a response (the parsed record, or
  nothing when the answer carries no data); it answers every request.

  The other effects of the trace: an action was invoked, an error was written to the console,
  a listener was registered, the keep-alive timer was started with its period (what the timer
  does at each tick is not modelled).
\<close>

record request =
  cmd :: string
  payload :: "(string \<times> jsval) list"
  options :: "string list"

datatype effect =
    Sent request
  | Invoked string prim
  | Logged prim error
  | Listening string
  | KeepAlive nat

type_synonym transport = "request list \<Rightarrow> error + response"

record rt =
  self :: bot
  trace :: "effect list"

fun sent :: "effect list \<Rightarrow> request list" where
  "sent [] = []"
| "sent (Sent r # es) = r # sent es"
| "sent (e # es) = sent es"

definition effect :: "effect \<Rightarrow> (rt, unit) run" where
  "effect e = assign (\<lambda>s. s\<lparr>trace := trace s @ [e]\<rparr>)"

definition send :: "transport \<Rightarrow> string \<Rightarrow> (string \<times> jsval) list \<Rightarrow> string list \<Rightarrow> (rt, response) run" where
  "send tr c p opts s =
     (let t = trace s @ [Sent \<lparr>cmd = c, payload = p, options = opts\<rparr>]
      in (tr (sent t), s\<lparr>trace := t\<rparr>))"

text \<open>
  Calling a function that returns a promise does not throw: \<open>promise\<close> gives, as the value of
  the call, how the promise settles. \<open>await\<close> is the other direction, for the callback of a
  \<open>.then\<close>: an exception of the callback and a rejection of the promise it returns both reject
  the chain.
\<close>

definition promise :: "('s, 'a) run \<Rightarrow> ('s, error + 'a) run" where
  "promise m s = (case m s of (r, s') \<Rightarrow> (Inr r, s'))"

definition await :: "('s, error + 'a) run \<Rightarrow> ('s, 'a) run" where
  "await m s = (case m s of (Inl e, s') \<Rightarrow> (Inl e, s') | (Inr r, s') \<Rightarrow> (r, s'))"

definition login :: "transport \<Rightarrow> (rt, response) run" where
  "login tr s =
     send tr ''login''
       [(''client_login_name'', username (b_credentials (self s))),
        (''client_login_password'', password (b_credentials (self s)))] [] s"

definition useServer :: "transport \<Rightarrow> (rt, response) run" where
  "useServer tr s = send tr ''use'' [(''port'', serverPort (b_connectionInfo (self s)))] [] s"

definition notifyForEvents :: "transport \<Rightarrow> (rt, response) run" where
  "notifyForEvents tr s =
     send tr ''servernotifyregister''
       [(''event'', Prim (PStr ''channel'')), (''id'', b_channelId (self s))] [] s"

definition changeName :: "transport \<Rightarrow> (rt, response) run" where
  "changeName tr s =
     send tr ''clientupdate'' [(''client_nickname'', botName (b_credentials (self s)))] [] s"

definition whoami' :: "transport \<Rightarrow> (rt, unit) run" where
  "whoami' tr =
     andThen (send tr ''whoami'' [] []) (\<lambda>response.
       assign (\<lambda>s. s\<lparr>self := (self s)\<lparr>whoami := response\<rparr>\<rparr>))"

definition sendPoke :: "transport \<Rightarrow> prim \<Rightarrow> prim \<Rightarrow> (rt, response) run" where
  "sendPoke tr clid msg = send tr ''clientpoke'' [(''clid'', Prim clid), (''msg'', Prim msg)] []"

definition kickClient :: "transport \<Rightarrow> prim \<Rightarrow> prim \<Rightarrow> (rt, response) run" where
  "kickClient tr clid message =
     send tr ''clientkick''
       [(''clid'', Prim clid), (''reasonid'', Prim (PNum 4)), (''reasonmsg'', Prim message)] []"

definition sendMessage :: "transport \<Rightarrow> prim \<Rightarrow> prim \<Rightarrow> (rt, response) run" where
  "sendMessage tr clid message =
     send tr ''sendtextmessage''
       [(''target'', Prim clid), (''targetmode'', Prim (PNum 1)), (''msg'', Prim message)] []"

text \<open>
  \<open>joinChannel(cid, clid = this.whoami.client_id, password)\<close>: an argument that is undefined
  was not supplied. The default of \<open>clid\<close> is evaluated at the call and throws a TypeError
  while \<open>whoami\<close> is not an object; so the call itself may throw, and otherwise returns the
  promise of the request.
\<close>

definition joinChannel :: "transport \<Rightarrow> jsval \<Rightarrow> prim \<Rightarrow> prim \<Rightarrow> (rt, error + response) run" where
  "joinChannel tr cid clid pw s =
     (case (if clid = PUndefined
            then (case whoami (self s) of
                    None \<Rightarrow> Inl TypeError
                  | Some w \<Rightarrow> Inr (prim_of (map_of w ''client_id'')))
            else Inr clid) of
        Inl e \<Rightarrow> (Inl e, s)
      | Inr c \<Rightarrow>
          promise (send tr ''clientmove''
            ([(''cid'', cid), (''clid'', Prim c)] @
             (if \<not> isUndefined pw then [(''password'', Prim pw)] else [])) []) s)"

definition connect :: "transport \<Rightarrow> (rt, response) run" where
  "connect tr =
     andThen (login tr) (\<lambda>_.
     andThen (useServer tr) (\<lambda>_.
     andThen (changeName tr) (\<lambda>_.
     andThen (whoami' tr) (\<lambda>_.
     andThen (\<lambda>s. await (joinChannel tr (b_channelId (self s)) PUndefined PUndefined) s) (\<lambda>_.
     notifyForEvents tr)))))"

definition start :: "transport \<Rightarrow> (rt, unit) run" where
  "start tr =
     andThen (effect (Listening ''clientmoved'')) (\<lambda>_.
     andThen (effect (Listening ''cliententerview'')) (\<lambda>_.
     andThen (connect tr) (\<lambda>_.
     effect (KeepAlive 60000))))"

section \<open>Channel guard\<close>

text \<open>
  \<open>response.client_servergroups.toString().split(',')\<close>: a number prints in decimal, a
  string is itself; splitting at the commas always gives at least one piece.
\<close>

fun digits :: "nat \<Rightarrow> string" where
  "digits n =
     (if n < 10 then [''0123456789'' ! n]
      else digits (n div 10) @ [''0123456789'' ! (n mod 10)])"

declare digits.simps [simp del]

fun toString :: "tsval \<Rightarrow> string" where
  "toString (TStr s) = s"
| "toString (TNum i) = (if i < 0 then CHR ''-'' # digits (nat (- i)) else digits (nat i))"

fun split_on :: "char \<Rightarrow> string \<Rightarrow> string list" where
  "split_on d [] = [[]]"
| "split_on d (c # cs) =
     (if c = d then [] # split_on d cs
      else (case split_on d cs of [] \<Rightarrow> [[c]] | w # ws \<Rightarrow> (c # w) # ws))"

text \<open>
  lodash's \<open>intersection(array, values)\<close> keeps the elements of the first array that occur
  in the second, each once, comparing with SameValueZero: no conversion between types, so a
  number is never the same as a string. (Two arrays or two functions are the same only when
  they are one object; the second array here holds strings, which no array or function is.)
\<close>

fun sameValueZero :: "jsval \<Rightarrow> jsval \<Rightarrow> bool" where
  "sameValueZero (Prim p) (Prim q) = (p = q)"
| "sameValueZero _ _ = False"

fun uniq :: "jsval list \<Rightarrow> jsval list" where
  "uniq [] = []"
| "uniq (x # xs) = x # uniq (filter (\<lambda>y. \<not> sameValueZero x y) xs)"

definition intersection :: "jsval list \<Rightarrow> string list \<Rightarrow> jsval list" where
  "intersection xs groupIds =
     uniq (filter (\<lambda>x. list_ex (\<lambda>g. sameValueZero x (Prim (PStr g))) groupIds) xs)"

definition hasPermission :: "transport \<Rightarrow> prim \<Rightarrow> (rt, bool) run" where
  "hasPermission tr clid =
     andThen (send tr ''clientinfo'' [(''clid'', Prim clid)] [''groups'']) (\<lambda>response s.
       case response of
         None \<Rightarrow> throws TypeError s
       | Some r \<Rightarrow>
           (case map_of r ''client_servergroups'' of
              None \<Rightarrow> throws TypeError s
            | Some g \<Rightarrow>
                (let groupIds = split_on CHR '','' (toString g)
                 in returns (length (b_allowedGroupIds (self s)) = 0
                      \<or> length (intersection (b_allowedGroupIds (self s)) groupIds) > 0) s)))"

text \<open>
  Calling an action: a value that is not a function cannot be called. The operations the
  callback invokes are those of the bot; it does not wait for their promises, so a rejected
  request does not make the callback throw, while the exception of \<open>joinChannel\<close> does.
\<close>

fun runOp :: "transport \<Rightarrow> op \<Rightarrow> (rt, unit) run" where
  "runOp tr (SendPoke clid msg) = andThen (promise (sendPoke tr clid msg)) (\<lambda>_. returns ())"
| "runOp tr (SendMessage clid msg) = andThen (promise (sendMessage tr clid msg)) (\<lambda>_. returns ())"
| "runOp tr (KickClient clid msg) = andThen (promise (kickClient tr clid msg)) (\<lambda>_. returns ())"
| "runOp tr (JoinChannel cid clid pw) = andThen (joinChannel tr (Prim cid) clid pw) (\<lambda>_. returns ())"

definition call :: "transport \<Rightarrow> string \<Rightarrow> jsval \<Rightarrow> prim \<Rightarrow> (rt, unit) run" where
  "call tr name f clid =
     (case f of
        JFun h \<Rightarrow>
          andThen (effect (Invoked name clid)) (\<lambda>_.
          andThen (forEach (fst (h clid)) (runOp tr)) (\<lambda>_.
          (case snd (h clid) of None \<Rightarrow> returns () | Some e \<Rightarrow> throws e)))
      | _ \<Rightarrow> throws TypeError)"

text \<open>
  The listeners. \<open>onClientMove\<close> starts a promise chain and returns; the chain goes on when
  the answer to the group query arrives. The model records what the chain does at the place
  where the listener is called, so the chains of different events are not interleaved; what one
  chain does, and in which order, is as in the program.
\<close>

type_synonym event = "(string \<times> tsval) list"

definition onClientMove :: "transport \<Rightarrow> event \<Rightarrow> (rt, unit) run" where
  "onClientMove tr moveEvent s =
     (if \<not> strict_eq (prim_of (map_of moveEvent ''ctid'')) (b_channelId (self s)) then returns () s
      else
        (let clientId = prim_of (map_of moveEvent ''clid'') in
         case whoami (self s) of
           None \<Rightarrow> throws TypeError s
         | Some w \<Rightarrow>
             if clientId = prim_of (map_of w ''client_id'') then returns () s
             else
               andThen
                 (promise
                   (orElse
                     (andThen (hasPermission tr clientId) (\<lambda>allowed s'.
                        call tr (if allowed then ''success'' else ''noPerms'')
                          ((if allowed then success else noPerms) (b_actions (self s')))
                          clientId s'))
                     (\<lambda>err. effect (Logged clientId err))))
                 (\<lambda>_. returns ()) s))"

definition onEnterView :: "transport \<Rightarrow> event \<Rightarrow> (rt, (error + response) option) run" where
  "onEnterView tr viewEvent s =
     (if \<not> strict_eq (prim_of (map_of viewEvent ''ctid'')) (b_channelId (self s)) then returns None s
      else
        andThen
          (promise (kickClient tr (prim_of (map_of viewEvent ''clid'')) (PStr ''Channel not allowed'')))
          (\<lambda>r. returns (Some r)) s)"

text \<open>
  The transport delivers the events one after the other to the listeners that \<open>start\<close>
  registered. An exception that leaves a listener leaves the delivery too and ends it; what a
  listener returns is dropped.
\<close>

definition emit :: "transport \<Rightarrow> string \<times> event \<Rightarrow> (rt, unit) run" where
  "emit tr ev =
     (if fst ev = ''clientmoved'' then onClientMove tr (snd ev)
      else if fst ev = ''cliententerview'' then andThen (onEnterView tr (snd ev)) (\<lambda>_. returns ())
      else returns ())"

definition event_loop :: "transport \<Rightarrow> (string \<times> event) list \<Rightarrow> (rt, unit) run" where
  "event_loop tr evs = forEach evs (emit tr)"

section \<open>Using the builder\<close>

text \<open>
  A caller configures a builder by a sequence of setter calls. A call that throws leaves the
  builder as the setter left it; the caller may go on with the same builder.
\<close>

datatype call =
    WithCredentials jsval jsval jsval
  | WithActions jsval jsval
  | WithConnectionInfo jsval jsval jsval
  | InChannel jsval
  | WithAllowedGroups jsval

datatype slice = Credentials | Actions | ConnectionInfo | ChannelId | AllowedGroups

fun slice_of :: "call \<Rightarrow> slice" where
  "slice_of (WithCredentials u p b) = Credentials"
| "slice_of (WithActions a d) = Actions"
| "slice_of (WithConnectionInfo a qp sp) = ConnectionInfo"
| "slice_of (InChannel c) = ChannelId"
| "slice_of (WithAllowedGroups g) = AllowedGroups"

fun invoke :: "call \<Rightarrow> (factory, unit) run" where
  "invoke (WithCredentials u p b) = withCredentials u p b"
| "invoke (WithActions a d) = withActions a d"
| "invoke (WithConnectionInfo a qp sp) = withConnectionInfo a qp sp"
| "invoke (InChannel c) = inChannel c"
| "invoke (WithAllowedGroups g) = withAllowedGroups g"

fun configure :: "call list \<Rightarrow> factory \<Rightarrow> factory" where
  "configure [] this = this"
| "configure (c # cs) this = configure cs (snd (invoke c this))"

definition accepted :: "call \<Rightarrow> bool" where
  "accepted c = (fst (invoke c new_Factory) = Inr ())"

definition settings :: "slice \<Rightarrow> call list \<Rightarrow> call list" where
  "settings k calls = filter (\<lambda>c. slice_of c = k \<and> accepted c) calls"

text \<open>\<open>store\<close> is the assignment at the end of each setter, on its own.\<close>

fun store :: "call \<Rightarrow> factory \<Rightarrow> factory" where
  "store (WithCredentials u p b) this = this\<lparr>f_credentials := Some \<lparr>username = u, password = p, botName = b\<rparr>\<rparr>"
| "store (WithActions a d) this = this\<lparr>f_actions := Some \<lparr>success = a, noPerms = d\<rparr>\<rparr>"
| "store (WithConnectionInfo a qp sp) this = this\<lparr>f_connectionInfo := Some \<lparr>address = a, queryPort = qp, serverPort = sp\<rparr>\<rparr>"
| "store (InChannel c) this = this\<lparr>f_channelId := Some c\<rparr>"
| "store (WithAllowedGroups g) this = this\<lparr>f_allowedGroupIds := Some (case g of JArr xs \<Rightarrow> xs | _ \<Rightarrow> [])\<rparr>"

text \<open>The outcome of validating the elements of an array one after the other.\<close>

fun first_failure :: "(error + unit) list \<Rightarrow> error + unit" where
  "first_failure [] = Inr ()"
| "first_failure (r # rs) = (case r of Inl e \<Rightarrow> Inl e | Inr _ \<Rightarrow> first_failure rs)"

text \<open>The configuration of \<open>example.js\<close>, and a session of that bot after its handshake,
  with client id 1.\<close>

definition example_success :: action where
  "example_success clid =
     ([SendPoke clid (PStr ''test success poke''), SendMessage clid (PStr ''success''),
       KickClient clid (PStr ''success'')], None)"

definition example_noPerms :: action where
  "example_noPerms clid =
     ([SendPoke clid (PStr ''test no perms poke''), SendMessage clid (PStr ''no perms''),
       KickClient clid (PStr ''no perms'')], None)"

definition example_calls :: "call list" where
  "example_calls =
     [WithCredentials (Prim (PStr ''serveradmin'')) (Prim (PStr ''password'')) (Prim (PStr ''TEST'')),
      WithAllowedGroups (JArr []),
      WithConnectionInfo (Prim (PStr ''uhc.gg'')) (Prim (PNum 10011)) (Prim (PNum 9989)),
      InChannel (Prim (PNum 1173)),
      WithActions (JFun example_success) (JFun example_noPerms)]"

text \<open>The same configuration with query port 70000.\<close>

definition port_70000_calls :: "call list" where
  "port_70000_calls =
     [WithCredentials (Prim (PStr ''serveradmin'')) (Prim (PStr ''password'')) (Prim (PStr ''TEST'')),
      WithAllowedGroups (JArr []),
      WithConnectionInfo (Prim (PStr ''uhc.gg'')) (Prim (PNum 70000)) (Prim (PNum 9989)),
      InChannel (Prim (PNum 1173)),
      WithActions (JFun example_success) (JFun example_noPerms)]"

definition example_bot :: bot where
  "example_bot =
     \<lparr>b_credentials = \<lparr>username = Prim (PStr ''serveradmin''), password = Prim (PStr ''password''),
                        botName = Prim (PStr ''TEST'')\<rparr>,
      b_connectionInfo = \<lparr>address = Prim (PStr ''uhc.gg''), queryPort = Prim (PNum 10011),
                           serverPort = Prim (PNum 9989)\<rparr>,
      b_channelId = Prim (PNum 1173),
      b_allowedGroupIds = [],
      b_actions = \<lparr>success = JFun example_success, noPerms = JFun example_noPerms\<rparr>,
      b_client = (Prim (PStr ''uhc.gg''), Prim (PNum 10011)),
      whoami = None\<rparr>"

definition example_session :: rt where
  "example_session = \<lparr>self = example_bot\<lparr>whoami := Some [(''client_id'', TNum 1)]\<rparr>, trace = []\<rparr>"

section \<open>Notions used to state the properties\<close>

text \<open>The six requests of the handshake, in the order of \<open>connect\<close>; \<open>own\<close> is the
  client id that the answer to \<open>whoami\<close> gave.\<close>

definition handshake :: "bot \<Rightarrow> prim \<Rightarrow> request list" where
  "handshake b own =
     [\<lparr>cmd = ''login'',
       payload = [(''client_login_name'', username (b_credentials b)),
                  (''client_login_password'', password (b_credentials b))],
       options = []\<rparr>,
      \<lparr>cmd = ''use'', payload = [(''port'', serverPort (b_connectionInfo b))], options = []\<rparr>,
      \<lparr>cmd = ''clientupdate'', payload = [(''client_nickname'', botName (b_credentials b))],
       options = []\<rparr>,
      \<lparr>cmd = ''whoami'', payload = [], options = []\<rparr>,
      \<lparr>cmd = ''clientmove'', payload = [(''cid'', b_channelId b), (''clid'', Prim own)],
       options = []\<rparr>,
      \<lparr>cmd = ''servernotifyregister'',
       payload = [(''event'', Prim (PStr ''channel'')), (''id'', b_channelId b)], options = []\<rparr>]"

text \<open>
  A kick request carries reason code 4. \<open>step P s s'\<close>: from \<open>s\<close> to \<open>s'\<close> the bot
  object is unchanged and the trace has grown by effects whose requests all satisfy \<open>P\<close>.
\<close>

definition kick_reason :: "request \<Rightarrow> bool" where
  "kick_reason r =
     (cmd r = ''clientkick'' \<longrightarrow>
        (case map_of (payload r) ''reasonid'' of Some (Prim (PNum n)) \<Rightarrow> n = 4 | _ \<Rightarrow> False))"

definition step :: "(request \<Rightarrow> bool) \<Rightarrow> rt \<Rightarrow> rt \<Rightarrow> bool" where
  "step P s s' = (self s' = self s \<and> (\<exists>t. trace s' = trace s @ t \<and> list_all P (sent t)))"

definition extends :: "(request \<Rightarrow> bool) \<Rightarrow> (rt, 'a) run \<Rightarrow> bool" where
  "extends P m = (\<forall>s. step P s (snd (m s)))"

section \<open>Basic facts\<close>

lemmas run_defs = returns_def throws_def check_def assign_def andThen_def orElse_def

lemma sent_append: "sent (t @ u) = sent t @ sent u"
  by (induction t rule: sent.induct) simp_all

lemma send_eq:
  "send tr c p opts s =
     (tr (sent (trace s) @ [\<lparr>cmd = c, payload = p, options = opts\<rparr>]),
      s\<lparr>trace := trace s @ [Sent \<lparr>cmd = c, payload = p, options = opts\<rparr>]\<rparr>)"
  by (simp add: send_def sent_append)

subsection \<open>The builder\<close>

lemma forEach_check: "forEach xs (\<lambda>it. check (v it)) s = (first_failure (map v xs), s)"
  by (induction xs) (auto simp: run_defs split: sum.splits)

lemma failed_withCredentials: "fst (withCredentials u p b this) \<noteq> Inr () \<Longrightarrow> snd (withCredentials u p b this) = this"
  by (auto simp: withCredentials_def run_defs split: sum.splits)

lemma failed_withActions: "fst (withActions a d this) \<noteq> Inr () \<Longrightarrow> snd (withActions a d this) = this"
  by (auto simp: withActions_def run_defs split: sum.splits)

lemma failed_withConnectionInfo: "fst (withConnectionInfo a qp sp this) \<noteq> Inr () \<Longrightarrow> snd (withConnectionInfo a qp sp this) = this"
  by (auto simp: withConnectionInfo_def run_defs split: sum.splits)

lemma failed_inChannel: "fst (inChannel c this) \<noteq> Inr () \<Longrightarrow> snd (inChannel c this) = this"
  by (auto simp: inChannel_def run_defs split: sum.splits)

lemma failed_withAllowedGroups: "fst (withAllowedGroups g this) \<noteq> Inr () \<Longrightarrow> snd (withAllowedGroups g this) = this"
  by (auto simp: withAllowedGroups_def run_defs forEach_check split: sum.splits jsval.splits if_splits)

text \<open>What an accepted call stores, and that validation does not look at the builder.\<close>

lemma invoke_result: "fst (invoke c this) = fst (invoke c this')"
  by (cases c)
     (auto simp: withCredentials_def withActions_def withConnectionInfo_def inChannel_def
        withAllowedGroups_def run_defs forEach_check split: sum.splits jsval.splits)

lemma accepted_iff: "accepted c \<longleftrightarrow> fst (invoke c this) = Inr ()"
  unfolding accepted_def using invoke_result [of c new_Factory this] by simp

lemma rejected_state: "\<not> accepted c \<Longrightarrow> snd (invoke c this) = this"
  unfolding accepted_iff [of c this]
  by (cases c)
     (simp_all add: failed_withCredentials failed_withActions failed_withConnectionInfo
        failed_inChannel failed_withAllowedGroups)

lemma accepted_state: "accepted c \<Longrightarrow> snd (invoke c this) = store c this"
  unfolding accepted_iff [of c this]
  by (cases c)
     (auto simp: withCredentials_def withActions_def withConnectionInfo_def inChannel_def
        withAllowedGroups_def run_defs forEach_check split: sum.splits jsval.splits if_splits)

lemma configure_snoc: "configure (cs @ [c]) this = snd (invoke c (configure cs this))"
  by (induction cs arbitrary: this) simp_all


lemma settings_snoc:
  "settings k (cs @ [c]) = settings k cs @ (if slice_of c = k \<and> accepted c then [c] else [])"
  by (simp add: settings_def)

lemma configure_step:
  "configure (cs @ [c]) this = (if accepted c then store c (configure cs this) else configure cs this)"
  by (simp add: configure_snoc accepted_state rejected_state)

lemma configured_fields:
  "f_credentials (configure calls new_Factory) =
     (if settings Credentials calls = [] then None
      else f_credentials (store (last (settings Credentials calls)) new_Factory))"
  "f_actions (configure calls new_Factory) =
     (if settings Actions calls = [] then None
      else f_actions (store (last (settings Actions calls)) new_Factory))"
  "f_connectionInfo (configure calls new_Factory) =
     (if settings ConnectionInfo calls = [] then None
      else f_connectionInfo (store (last (settings ConnectionInfo calls)) new_Factory))"
  "f_channelId (configure calls new_Factory) =
     (if settings ChannelId calls = [] then None
      else f_channelId (store (last (settings ChannelId calls)) new_Factory))"
  "f_allowedGroupIds (configure calls new_Factory) =
     (if settings AllowedGroups calls = [] then None
      else f_allowedGroupIds (store (last (settings AllowedGroups calls)) new_Factory))"
proof (induction calls rule: rev_induct)
  case Nil
  {
    case 1 show ?case by (simp add: settings_def new_Factory_def)
  next
    case 2 show ?case by (simp add: settings_def new_Factory_def)
  next
    case 3 show ?case by (simp add: settings_def new_Factory_def)
  next
    case 4 show ?case by (simp add: settings_def new_Factory_def)
  next
    case 5 show ?case by (simp add: settings_def new_Factory_def)
  }
next
  case (snoc c cs)
  {
    case 1 show ?case using snoc(1) by (cases c) (simp_all add: configure_step settings_snoc)
  next
    case 2 show ?case using snoc(2) by (cases c) (simp_all add: configure_step settings_snoc)
  next
    case 3 show ?case using snoc(3) by (cases c) (simp_all add: configure_step settings_snoc)
  next
    case 4 show ?case using snoc(4) by (cases c) (simp_all add: configure_step settings_snoc)
  next
    case 5 show ?case using snoc(5) by (cases c) (simp_all add: configure_step settings_snoc)
  }
qed

lemma accepted_InChannel_truthy: "accepted (InChannel ch) \<Longrightarrow> truthy ch"
  by (auto simp: accepted_def inChannel_def validatePositiveInteger_def run_defs
      split: jsval.splits prim.splits if_splits)

lemma last_settings: "settings k calls \<noteq> [] \<Longrightarrow> accepted (last (settings k calls)) \<and> slice_of (last (settings k calls)) = k"
  using last_in_set [of "settings k calls"] by (auto simp: settings_def)

subsection \<open>The handshake, case by case\<close>

lemmas bot_defs = start_def connect_def login_def useServer_def changeName_def whoami'_def
  joinChannel_def notifyForEvents_def effect_def await_def promise_def

lemma start_fail0:
  assumes "tr (sent (trace s) @ take (Suc 0) (handshake (self s) own)) = Inl e"
  shows "start tr s = (Inl e, s\<lparr>trace := trace s @ [Listening ''clientmoved'', Listening ''cliententerview''] @ map Sent (take (Suc 0) (handshake (self s) own))\<rparr>)"
  using assms by (simp add: bot_defs run_defs send_eq sent_append handshake_def)

lemma start_fail1:
  assumes "tr (sent (trace s) @ take (Suc 0) (handshake (self s) own)) = Inr x0"
   "tr (sent (trace s) @ take (Suc (Suc 0)) (handshake (self s) own)) = Inl e"
  shows "start tr s = (Inl e, s\<lparr>trace := trace s @ [Listening ''clientmoved'', Listening ''cliententerview''] @ map Sent (take (Suc (Suc 0)) (handshake (self s) own))\<rparr>)"
  using assms by (simp add: bot_defs run_defs send_eq sent_append handshake_def)

lemma start_fail2:
  assumes "tr (sent (trace s) @ take (Suc 0) (handshake (self s) own)) = Inr x0"
   "tr (sent (trace s) @ take (Suc (Suc 0)) (handshake (self s) own)) = Inr x1"
   "tr (sent (trace s) @ take (Suc (Suc (Suc 0))) (handshake (self s) own)) = Inl e"
  shows "start tr s = (Inl e, s\<lparr>trace := trace s @ [Listening ''clientmoved'', Listening ''cliententerview''] @ map Sent (take (Suc (Suc (Suc 0))) (handshake (self s) own))\<rparr>)"
  using assms by (simp add: bot_defs run_defs send_eq sent_append handshake_def)

lemma start_fail3:
  assumes "tr (sent (trace s) @ take (Suc 0) (handshake (self s) own)) = Inr x0"
   "tr (sent (trace s) @ take (Suc (Suc 0)) (handshake (self s) own)) = Inr x1"
   "tr (sent (trace s) @ take (Suc (Suc (Suc 0))) (handshake (self s) own)) = Inr x2"
   "tr (sent (trace s) @ take (Suc (Suc (Suc (Suc 0)))) (handshake (self s) own)) = Inl e"
  shows "start tr s = (Inl e, s\<lparr>trace := trace s @ [Listening ''clientmoved'', Listening ''cliententerview''] @ map Sent (take (Suc (Suc (Suc (Suc 0)))) (handshake (self s) own))\<rparr>)"
  using assms by (simp add: bot_defs run_defs send_eq sent_append handshake_def)

lemma start_nodata:
  assumes "tr (sent (trace s) @ take (Suc 0) (handshake (self s) own)) = Inr x0"
   "tr (sent (trace s) @ take (Suc (Suc 0)) (handshake (self s) own)) = Inr x1"
   "tr (sent (trace s) @ take (Suc (Suc (Suc 0))) (handshake (self s) own)) = Inr x2"
   "tr (sent (trace s) @ take (Suc (Suc (Suc (Suc 0)))) (handshake (self s) own)) = Inr None"
  shows "start tr s = (Inl TypeError, s\<lparr>self := (self s)\<lparr>whoami := None\<rparr>, trace := trace s @ [Listening ''clientmoved'', Listening ''cliententerview''] @ map Sent (take (Suc (Suc (Suc (Suc 0)))) (handshake (self s) own))\<rparr>)"
  using assms by (simp add: bot_defs run_defs send_eq sent_append handshake_def)

lemma start_fail4:
  assumes "tr (sent (trace s) @ take (Suc 0) (handshake (self s) own)) = Inr x0"
   "tr (sent (trace s) @ take (Suc (Suc 0)) (handshake (self s) own)) = Inr x1"
   "tr (sent (trace s) @ take (Suc (Suc (Suc 0))) (handshake (self s) own)) = Inr x2"
   "tr (sent (trace s) @ take (Suc (Suc (Suc (Suc 0)))) (handshake (self s) own)) = Inr (Some w)"
   "own = prim_of (map_of w ''client_id'')"
   "tr (sent (trace s) @ take (Suc (Suc (Suc (Suc (Suc 0))))) (handshake (self s) own)) = Inl e"
  shows "start tr s = (Inl e, s\<lparr>self := (self s)\<lparr>whoami := Some w\<rparr>, trace := trace s @ [Listening ''clientmoved'', Listening ''cliententerview''] @ map Sent (take (Suc (Suc (Suc (Suc (Suc 0))))) (handshake (self s) own))\<rparr>)"
  using assms by (simp add: bot_defs run_defs send_eq sent_append handshake_def)

lemma start_fail5:
  assumes "tr (sent (trace s) @ take (Suc 0) (handshake (self s) own)) = Inr x0"
   "tr (sent (trace s) @ take (Suc (Suc 0)) (handshake (self s) own)) = Inr x1"
   "tr (sent (trace s) @ take (Suc (Suc (Suc 0))) (handshake (self s) own)) = Inr x2"
   "tr (sent (trace s) @ take (Suc (Suc (Suc (Suc 0)))) (handshake (self s) own)) = Inr (Some w)"
   "own = prim_of (map_of w ''client_id'')"
   "tr (sent (trace s) @ take (Suc (Suc (Suc (Suc (Suc 0))))) (handshake (self s) own)) = Inr x4"
   "tr (sent (trace s) @ take (Suc (Suc (Suc (Suc (Suc (Suc 0)))))) (handshake (self s) own)) = Inl e"
  shows "start tr s = (Inl e, s\<lparr>self := (self s)\<lparr>whoami := Some w\<rparr>, trace := trace s @ [Listening ''clientmoved'', Listening ''cliententerview''] @ map Sent (take (Suc (Suc (Suc (Suc (Suc (Suc 0)))))) (handshake (self s) own))\<rparr>)"
  using assms by (simp add: bot_defs run_defs send_eq sent_append handshake_def)

lemma start_ok:
  assumes "tr (sent (trace s) @ take (Suc 0) (handshake (self s) own)) = Inr x0"
   "tr (sent (trace s) @ take (Suc (Suc 0)) (handshake (self s) own)) = Inr x1"
   "tr (sent (trace s) @ take (Suc (Suc (Suc 0))) (handshake (self s) own)) = Inr x2"
   "tr (sent (trace s) @ take (Suc (Suc (Suc (Suc 0)))) (handshake (self s) own)) = Inr (Some w)"
   "own = prim_of (map_of w ''client_id'')"
   "tr (sent (trace s) @ take (Suc (Suc (Suc (Suc (Suc 0))))) (handshake (self s) own)) = Inr x4"
   "tr (sent (trace s) @ take (Suc (Suc (Suc (Suc (Suc (Suc 0)))))) (handshake (self s) own)) = Inr x5"
  shows "start tr s = (Inr (), s\<lparr>self := (self s)\<lparr>whoami := Some w\<rparr>, trace := trace s @ [Listening ''clientmoved'', Listening ''cliententerview''] @ map Sent (handshake (self s) own) @ [KeepAlive 60000]\<rparr>)"
  using assms by (simp add: bot_defs run_defs send_eq sent_append handshake_def)

subsection \<open>What handling an event leaves behind\<close>

lemma step_refl: "step P s s"
  by (simp add: step_def)

lemma step_trans: "step P s s' \<Longrightarrow> step P s' s'' \<Longrightarrow> step P s s''"
  by (auto simp: step_def sent_append)

lemma extendsD: "extends P m \<Longrightarrow> step P s (snd (m s))"
  by (simp add: extends_def)

lemma extends_returns: "extends P (returns a)"
  by (simp add: extends_def returns_def step_refl)

lemma extends_throws: "extends P (throws e)"
  by (simp add: extends_def throws_def step_refl)

lemma extends_effect: "sent [e] = [] \<Longrightarrow> extends P (effect e)"
  by (simp add: extends_def effect_def assign_def step_def sent_append)

lemma extends_send: "P \<lparr>cmd = c, payload = p, options = opts\<rparr> \<Longrightarrow> extends P (send tr c p opts)"
  by (simp add: extends_def send_eq step_def)

lemma extends_pointwise: "(\<And>s. step P s (snd (m s))) \<Longrightarrow> extends P m"
  by (simp add: extends_def)

lemma extends_andThen:
  assumes "extends P m" and "\<And>a. extends P (f a)"
  shows "extends P (andThen m f)"
proof (rule extends_pointwise)
  fix s
  obtain r s' where ms: "m s = (r, s')" by (cases "m s")
  have 1: "step P s s'" using extendsD [OF assms(1), of s] ms by simp
  show "step P s (snd (andThen m f s))"
  proof (cases r)
    case (Inl e)
    with ms 1 show ?thesis by (simp add: andThen_def)
  next
    case (Inr a)
    have "step P s' (snd (f a s'))" using assms(2) by (rule extendsD)
    with 1 have "step P s (snd (f a s'))" by (rule step_trans)
    with ms Inr show ?thesis by (simp add: andThen_def)
  qed
qed

lemma extends_orElse:
  assumes "extends P m" and "\<And>e. extends P (h e)"
  shows "extends P (orElse m h)"
proof (rule extends_pointwise)
  fix s
  obtain r s' where ms: "m s = (r, s')" by (cases "m s")
  have 1: "step P s s'" using extendsD [OF assms(1), of s] ms by simp
  show "step P s (snd (orElse m h s))"
  proof (cases r)
    case (Inr a)
    with ms 1 show ?thesis by (simp add: orElse_def)
  next
    case (Inl e)
    have "step P s' (snd (h e s'))" using assms(2) by (rule extendsD)
    with 1 have "step P s (snd (h e s'))" by (rule step_trans)
    with ms Inl show ?thesis by (simp add: orElse_def)
  qed
qed

lemma extends_promise: "extends P m \<Longrightarrow> extends P (promise m)"
proof (rule extends_pointwise)
  fix s
  assume "extends P m"
  then have "step P s (snd (m s))" by (rule extendsD)
  then show "step P s (snd (promise m s))" by (cases "m s") (simp add: promise_def)
qed

lemma extends_forEach: "(\<And>x. extends P (f x)) \<Longrightarrow> extends P (forEach xs f)"
  by (induction xs) (auto intro: extends_returns extends_andThen)

lemma extends_kickClient: "extends kick_reason (kickClient tr c m)"
  unfolding kickClient_def by (rule extends_send) (simp add: kick_reason_def)

lemma extends_sendPoke: "extends kick_reason (sendPoke tr c m)"
  unfolding sendPoke_def by (rule extends_send) (simp add: kick_reason_def)

lemma extends_sendMessage: "extends kick_reason (sendMessage tr c m)"
  unfolding sendMessage_def by (rule extends_send) (simp add: kick_reason_def)

lemma extends_joinChannel: "extends kick_reason (joinChannel tr cid c pw)"
proof (rule extends_pointwise)
  fix s
  have "step kick_reason s (snd (promise (send tr ''clientmove'' p []) s))" for p
    by (rule extendsD, intro extends_promise extends_send) (simp add: kick_reason_def)
  then show "step kick_reason s (snd (joinChannel tr cid c pw s))"
    by (simp add: joinChannel_def step_refl split: option.splits)
qed

lemma extends_runOp: "extends kick_reason (runOp tr x)"
  by (cases x)
     (auto intro!: extends_andThen extends_promise extends_returns extends_kickClient
        extends_sendPoke extends_sendMessage extends_joinChannel)

lemma extends_call: "extends kick_reason (call tr name f clid)"
proof (cases f)
  case (JFun h)
  have "extends kick_reason (case snd (h clid) of None \<Rightarrow> returns () | Some e \<Rightarrow> throws e)"
    by (cases "snd (h clid)") (simp_all add: extends_returns extends_throws)
  with JFun show ?thesis
    unfolding call_def
    by (simp add: extends_andThen extends_effect extends_forEach extends_runOp)
qed (simp_all add: call_def extends_throws)

lemma extends_hasPermission: "extends kick_reason (hasPermission tr clid)"
  unfolding hasPermission_def
proof (rule extends_andThen)
  show "extends kick_reason (send tr ''clientinfo'' [(''clid'', Prim clid)] [''groups''])"
    by (rule extends_send) (simp add: kick_reason_def)
next
  fix response
  show "extends kick_reason (\<lambda>s. case response of
         None \<Rightarrow> throws TypeError s
       | Some r \<Rightarrow>
           (case map_of r ''client_servergroups'' of
              None \<Rightarrow> throws TypeError s
            | Some g \<Rightarrow>
                (let groupIds = split_on CHR '','' (toString g)
                 in returns (length (b_allowedGroupIds (self s)) = 0
                      \<or> length (intersection (b_allowedGroupIds (self s)) groupIds) > 0) s)))"
    by (rule extends_pointwise) (simp add: throws_def returns_def step_refl split: option.splits)
qed

lemma extends_dispatch:
  "extends kick_reason (\<lambda>s'. call tr (if allowed then ''success'' else ''noPerms'')
       ((if allowed then success else noPerms) (b_actions (self s'))) c s')"
  by (rule extends_pointwise) (rule extendsD [OF extends_call])

lemma extends_onClientMove: "extends kick_reason (onClientMove tr ev)"
proof (rule extends_pointwise)
  fix s
  have "step kick_reason s (snd ((andThen
                 (promise
                   (orElse
                     (andThen (hasPermission tr c) (\<lambda>allowed s'.
                        call tr (if allowed then ''success'' else ''noPerms'')
                          ((if allowed then success else noPerms) (b_actions (self s')))
                          c s'))
                     (\<lambda>err. effect (Logged c err))))
                 (\<lambda>_. returns ())) s))" for c
    by (rule extendsD,
        intro extends_andThen extends_promise extends_orElse extends_hasPermission
          extends_returns extends_effect extends_dispatch) simp
  then show "step kick_reason s (snd (onClientMove tr ev s))"
    by (simp add: onClientMove_def Let_def returns_def throws_def step_refl split: option.splits)
qed

lemma extends_onEnterView: "extends kick_reason (onEnterView tr ev)"
proof (rule extends_pointwise)
  fix s
  have "step kick_reason s (snd (andThen (promise (kickClient tr c m)) (\<lambda>r. returns (Some r)) s))" for c m
    by (rule extendsD, intro extends_andThen extends_promise extends_kickClient extends_returns)
  then show "step kick_reason s (snd (onEnterView tr ev s))"
    by (simp add: onEnterView_def returns_def step_refl)
qed

lemma extends_emit: "extends kick_reason (emit tr ev)"
  unfolding emit_def
  by (auto intro!: extends_onClientMove extends_andThen extends_onEnterView extends_returns)

lemma extends_event_loop: "extends kick_reason (event_loop tr evs)"
  unfolding event_loop_def by (intro extends_forEach extends_emit)

subsection \<open>The example configuration\<close>

lemma not_isInteger_3_2: "\<not> isInteger (Prim (PNum (3 / 2)))"
proof -
  have "\<lfloor>(3::rat) / 2\<rfloor> = 1" by (simp add: floor_eq_iff)
  then show ?thesis by (simp del: floor_divide_eq_div_numeral)
qed

lemma isInteger_numeral: "isInteger (Prim (PNum (numeral n)))"
  by simp

lemma example_configured: "configure example_calls new_Factory = \<lparr>f_credentials = Some (b_credentials example_bot),
   f_actions = Some (b_actions example_bot), f_connectionInfo = Some (b_connectionInfo example_bot),
   f_channelId = Some (Prim (PNum 1173)), f_allowedGroupIds = Some []\<rparr>"
  by (simp add: example_calls_def new_Factory_def example_bot_def withCredentials_def withActions_def
       withConnectionInfo_def inChannel_def withAllowedGroups_def run_defs validateString_def
       validateFunction_def validatePositiveInteger_def)

section \<open>Properties of the builder\<close>

text \<open>
  C9. Every setter validates all of its arguments before it assigns: a call of
  \<open>withCredentials\<close>, \<open>withConnectionInfo\<close>, \<open>inChannel\<close>, \<open>withAllowedGroups\<close> or
  \<open>withActions\<close> that throws leaves the builder exactly as it was.
\<close>

theorem failed_setter_leaves_builder:
  "(fst (withCredentials u p b this) \<noteq> Inr () \<longrightarrow> snd (withCredentials u p b this) = this) \<and>
   (fst (withConnectionInfo a qp sp this) \<noteq> Inr () \<longrightarrow> snd (withConnectionInfo a qp sp this) = this) \<and>
   (fst (inChannel c this) \<noteq> Inr () \<longrightarrow> snd (inChannel c this) = this) \<and>
   (fst (withAllowedGroups g this) \<noteq> Inr () \<longrightarrow> snd (withAllowedGroups g this) = this) \<and>
   (fst (withActions ok denied this) \<noteq> Inr () \<longrightarrow> snd (withActions ok denied this) = this)"
  by (simp add: failed_withCredentials failed_withActions failed_withConnectionInfo
        failed_inChannel failed_withAllowedGroups)

theorem failed_setter_leaves_builder_witness:
  "fst (withCredentials (Prim (PStr ''serveradmin'')) (Prim (PStr '''')) (Prim (PStr ''TEST''))
         (configure example_calls new_Factory)) = Inl (Error ''Invalid password'') \<and>
   snd (withCredentials (Prim (PStr ''serveradmin'')) (Prim (PStr '''')) (Prim (PStr ''TEST''))
         (configure example_calls new_Factory)) = configure example_calls new_Factory \<and>
   fst (withConnectionInfo (Prim (PStr ''uhc.gg'')) (Prim (PNum 10011)) (Prim (PNum (3 / 2)))
         (configure example_calls new_Factory)) = Inl (Error ''Invalid server port'') \<and>
   snd (withConnectionInfo (Prim (PStr ''uhc.gg'')) (Prim (PNum 10011)) (Prim (PNum (3 / 2)))
         (configure example_calls new_Factory)) = configure example_calls new_Factory \<and>
   fst (inChannel (Prim (PNum 0)) (configure example_calls new_Factory)) = Inl (Error ''Invalid channel id'') \<and>
   snd (inChannel (Prim (PNum 0)) (configure example_calls new_Factory)) = configure example_calls new_Factory \<and>
   fst (withAllowedGroups (JArr [Prim (PNum 5), Prim (PStr ''7'')]) (configure example_calls new_Factory))
     = Inl (Error ''Invalid group ID'') \<and>
   snd (withAllowedGroups (JArr [Prim (PNum 5), Prim (PStr ''7'')]) (configure example_calls new_Factory))
     = configure example_calls new_Factory \<and>
   fst (withActions (JFun example_success) (Prim PNull) (configure example_calls new_Factory))
     = Inl (Error ''Invalid noPerms function'') \<and>
   snd (withActions (JFun example_success) (Prim PNull) (configure example_calls new_Factory))
     = configure example_calls new_Factory"
proof -
  let ?f = "configure example_calls new_Factory"
  have 1: "fst (withCredentials (Prim (PStr ''serveradmin'')) (Prim (PStr '''')) (Prim (PStr ''TEST'')) ?f)
        = Inl (Error ''Invalid password'')"
    by (simp add: withCredentials_def run_defs validateString_def)
  have 2: "fst (withConnectionInfo (Prim (PStr ''uhc.gg'')) (Prim (PNum 10011)) (Prim (PNum (3 / 2))) ?f)
        = Inl (Error ''Invalid server port'')"
    by (simp add: withConnectionInfo_def run_defs validateString_def validatePositiveInteger_def
          not_isInteger_3_2 isInteger_numeral del: isInteger.simps)
  have 3: "fst (inChannel (Prim (PNum 0)) ?f) = Inl (Error ''Invalid channel id'')"
    by (simp add: inChannel_def run_defs validatePositiveInteger_def)
  have 4: "fst (withAllowedGroups (JArr [Prim (PNum 5), Prim (PStr ''7'')]) ?f) = Inl (Error ''Invalid group ID'')"
    by (simp add: withAllowedGroups_def run_defs validatePositiveInteger_def)
  have 5: "fst (withActions (JFun example_success) (Prim PNull) ?f) = Inl (Error ''Invalid noPerms function'')"
    by (simp add: withActions_def run_defs validateFunction_def)
  show ?thesis
    using 1 2 3 4 5
      failed_setter_leaves_builder [of "Prim (PStr ''serveradmin'')" "Prim (PStr '''')" "Prim (PStr ''TEST'')" ?f
        "Prim (PStr ''uhc.gg'')" "Prim (PNum 10011)" "Prim (PNum (3 / 2))" "Prim (PNum 0)"
        "JArr [Prim (PNum 5), Prim (PStr ''7'')]" "JFun example_success" "Prim PNull"]
    by simp
qed

lemma accepted_WithConnectionInfo_port:
  assumes "accepted (WithConnectionInfo ad qp sp)"
  shows "\<exists>r. qp = Prim (PNum r) \<and> of_int \<lfloor>r\<rfloor> = r \<and> 0 < r"
proof -
  from assms have "validatePositiveInteger qp ''Invalid query port'' = Inr ()"
    by (auto simp: accepted_def withConnectionInfo_def run_defs split: sum.splits)
  then show ?thesis
    by (auto simp: validatePositiveInteger_def split: jsval.splits prim.splits if_splits)
qed

lemma new_TeamSpeakClient_accepted:
  "of_int \<lfloor>r\<rfloor> = r \<Longrightarrow> 0 < r \<Longrightarrow>
   new_TeamSpeakClient ad (Prim (PNum r)) =
     (if r \<le> 65535 then Inr (ad, Prim (PNum r)) else Inl RangeError)"
  by (simp add: new_TeamSpeakClient_def)

text \<open>
  C4, as the program has it. A builder is what a sequence of setter calls leaves of a new
  \<open>Factory\<close>. If each of the five slices was set by an accepted call, the query port of the
  last accepted connection info is a number, and: when it is at most 65535, \<open>build\<close>
  succeeds and the bot carries exactly the arguments of the last accepted call for each slice
  (the client is created for the address and the query port, \<open>whoami\<close> is null); when it is
  larger, creating the client throws a RangeError and so does \<open>build\<close>. If some slice was
  never set by an accepted call, \<open>build\<close> throws an \<open>Error\<close>.
\<close>

theorem build_all_slices:
  "(settings Credentials calls \<noteq> [] \<and> last (settings Credentials calls) = WithCredentials u p b \<and>
    settings Actions calls \<noteq> [] \<and> last (settings Actions calls) = WithActions a d \<and>
    settings ConnectionInfo calls \<noteq> [] \<and> last (settings ConnectionInfo calls) = WithConnectionInfo ad qp sp \<and>
    settings ChannelId calls \<noteq> [] \<and> last (settings ChannelId calls) = InChannel ch \<and>
    settings AllowedGroups calls \<noteq> [] \<and> last (settings AllowedGroups calls) = WithAllowedGroups g
    \<longrightarrow> (\<exists>r. qp = Prim (PNum r) \<and>
          build (configure calls new_Factory) =
            (if r \<le> 65535
             then Inr \<lparr>b_credentials = \<lparr>username = u, password = p, botName = b\<rparr>,
                       b_connectionInfo = \<lparr>address = ad, queryPort = qp, serverPort = sp\<rparr>,
                       b_channelId = ch,
                       b_allowedGroupIds = (case g of JArr xs \<Rightarrow> xs | _ \<Rightarrow> []),
                       b_actions = \<lparr>success = a, noPerms = d\<rparr>,
                       b_client = (ad, qp),
                       whoami = None\<rparr>
             else Inl RangeError)))
   \<and> (settings k calls = [] \<longrightarrow> (\<exists>m. build (configure calls new_Factory) = Inl (Error m)))"
proof (intro conjI impI)
  assume h: "settings Credentials calls \<noteq> [] \<and> last (settings Credentials calls) = WithCredentials u p b \<and>
    settings Actions calls \<noteq> [] \<and> last (settings Actions calls) = WithActions a d \<and>
    settings ConnectionInfo calls \<noteq> [] \<and> last (settings ConnectionInfo calls) = WithConnectionInfo ad qp sp \<and>
    settings ChannelId calls \<noteq> [] \<and> last (settings ChannelId calls) = InChannel ch \<and>
    settings AllowedGroups calls \<noteq> [] \<and> last (settings AllowedGroups calls) = WithAllowedGroups g"
  then have "accepted (InChannel ch)"
    using last_settings [of ChannelId calls] by simp
  then have t: "truthy ch" by (rule accepted_InChannel_truthy)
  from h have "accepted (WithConnectionInfo ad qp sp)"
    using last_settings [of ConnectionInfo calls] by simp
  then obtain r where r: "qp = Prim (PNum r)" "of_int \<lfloor>r\<rfloor> = r" "0 < r"
    using accepted_WithConnectionInfo_port by blast
  have "build (configure calls new_Factory) =
            (if r \<le> 65535
             then Inr \<lparr>b_credentials = \<lparr>username = u, password = p, botName = b\<rparr>,
                       b_connectionInfo = \<lparr>address = ad, queryPort = qp, serverPort = sp\<rparr>,
                       b_channelId = ch,
                       b_allowedGroupIds = (case g of JArr xs \<Rightarrow> xs | _ \<Rightarrow> []),
                       b_actions = \<lparr>success = a, noPerms = d\<rparr>,
                       b_client = (ad, qp),
                       whoami = None\<rparr>
             else Inl RangeError)"
    using h t r
    by (simp add: build_def configured_fields new_Bot_def new_TeamSpeakClient_accepted)
  with r(1) show "\<exists>r. qp = Prim (PNum r) \<and>
          build (configure calls new_Factory) =
            (if r \<le> 65535
             then Inr \<lparr>b_credentials = \<lparr>username = u, password = p, botName = b\<rparr>,
                       b_connectionInfo = \<lparr>address = ad, queryPort = qp, serverPort = sp\<rparr>,
                       b_channelId = ch,
                       b_allowedGroupIds = (case g of JArr xs \<Rightarrow> xs | _ \<Rightarrow> []),
                       b_actions = \<lparr>success = a, noPerms = d\<rparr>,
                       b_client = (ad, qp),
                       whoami = None\<rparr>
             else Inl RangeError)"
    by blast
next
  assume "settings k calls = []"
  then show "\<exists>m. build (configure calls new_Factory) = Inl (Error m)"
    by (cases k) (simp_all add: build_def configured_fields split: option.splits)
qed

lemma example_accepted:
  "accepted (WithCredentials (Prim (PStr ''serveradmin'')) (Prim (PStr ''password'')) (Prim (PStr ''TEST'')))"
  "accepted (WithAllowedGroups (JArr []))"
  "accepted (WithConnectionInfo (Prim (PStr ''uhc.gg'')) (Prim (PNum 10011)) (Prim (PNum 9989)))"
  "accepted (WithConnectionInfo (Prim (PStr ''uhc.gg'')) (Prim (PNum 70000)) (Prim (PNum 9989)))"
  "accepted (InChannel (Prim (PNum 1173)))"
  "accepted (WithActions (JFun example_success) (JFun example_noPerms))"
  by (simp_all add: accepted_def withCredentials_def withActions_def
       withConnectionInfo_def inChannel_def withAllowedGroups_def run_defs validateString_def
       validateFunction_def validatePositiveInteger_def)

lemma example_settings:
  "settings Credentials example_calls = [WithCredentials (Prim (PStr ''serveradmin'')) (Prim (PStr ''password'')) (Prim (PStr ''TEST''))]"
  "settings AllowedGroups example_calls = [WithAllowedGroups (JArr [])]"
  "settings ConnectionInfo example_calls = [WithConnectionInfo (Prim (PStr ''uhc.gg'')) (Prim (PNum 10011)) (Prim (PNum 9989))]"
  "settings ChannelId example_calls = [InChannel (Prim (PNum 1173))]"
  "settings Actions example_calls = [WithActions (JFun example_success) (JFun example_noPerms)]"
  "settings Actions (butlast example_calls) = []"
  by (simp_all add: settings_def example_calls_def example_accepted)

lemma port_70000_settings:
  "settings Credentials port_70000_calls = [WithCredentials (Prim (PStr ''serveradmin'')) (Prim (PStr ''password'')) (Prim (PStr ''TEST''))]"
  "settings AllowedGroups port_70000_calls = [WithAllowedGroups (JArr [])]"
  "settings ConnectionInfo port_70000_calls = [WithConnectionInfo (Prim (PStr ''uhc.gg'')) (Prim (PNum 70000)) (Prim (PNum 9989))]"
  "settings ChannelId port_70000_calls = [InChannel (Prim (PNum 1173))]"
  "settings Actions port_70000_calls = [WithActions (JFun example_success) (JFun example_noPerms)]"
  by (simp_all add: settings_def port_70000_calls_def example_accepted)

theorem build_all_slices_witness:
  "build (configure example_calls new_Factory) = Inr example_bot \<and>
   build (configure port_70000_calls new_Factory) = Inl RangeError \<and>
   (\<exists>m. build (configure (butlast example_calls) new_Factory) = Inl (Error m))"
proof -
  have 1: "build (configure example_calls new_Factory) = Inr example_bot"
    using build_all_slices [of example_calls "Prim (PStr ''serveradmin'')" "Prim (PStr ''password'')"
        "Prim (PStr ''TEST'')" "JFun example_success" "JFun example_noPerms"
        "Prim (PStr ''uhc.gg'')" "Prim (PNum 10011)" "Prim (PNum 9989)" "Prim (PNum 1173)" "JArr []"
        Actions]
    by (simp add: example_settings example_bot_def)
  have 2: "build (configure port_70000_calls new_Factory) = Inl RangeError"
    using build_all_slices [of port_70000_calls "Prim (PStr ''serveradmin'')" "Prim (PStr ''password'')"
        "Prim (PStr ''TEST'')" "JFun example_success" "JFun example_noPerms"
        "Prim (PStr ''uhc.gg'')" "Prim (PNum 70000)" "Prim (PNum 9989)" "Prim (PNum 1173)" "JArr []"
        Actions]
    by (simp add: port_70000_settings)
  have 3: "\<exists>m. build (configure (butlast example_calls) new_Factory) = Inl (Error m)"
    using build_all_slices [of "butlast example_calls" _ _ _ _ _ _ _ _ _ _ Actions]
    by (simp add: example_settings)
  from 1 2 3 show ?thesis by blast
qed

text \<open>
  The claim as it was written, that \<open>build\<close> succeeds whenever all five slices were set with
  values the setters accept, fails for the configuration of \<open>example.js\<close> with query port
  70000: every slice is set by an accepted call and \<open>build\<close> throws.
\<close>

theorem build_all_slices_counterexample:
  "settings Credentials port_70000_calls \<noteq> [] \<and>
   settings Actions port_70000_calls \<noteq> [] \<and>
   settings ConnectionInfo port_70000_calls \<noteq> [] \<and>
   settings ChannelId port_70000_calls \<noteq> [] \<and>
   settings AllowedGroups port_70000_calls \<noteq> [] \<and>
   last (settings ConnectionInfo port_70000_calls) =
     WithConnectionInfo (Prim (PStr ''uhc.gg'')) (Prim (PNum 70000)) (Prim (PNum 9989)) \<and>
   build (configure port_70000_calls new_Factory) = Inl RangeError"
proof -
  have "configure port_70000_calls new_Factory =
     \<lparr>f_credentials = Some (b_credentials example_bot),
      f_actions = Some (b_actions example_bot),
      f_connectionInfo = Some \<lparr>address = Prim (PStr ''uhc.gg''), queryPort = Prim (PNum 70000),
                               serverPort = Prim (PNum 9989)\<rparr>,
      f_channelId = Some (Prim (PNum 1173)), f_allowedGroupIds = Some []\<rparr>"
    by (simp add: port_70000_calls_def new_Factory_def example_bot_def withCredentials_def
          withActions_def withConnectionInfo_def inChannel_def withAllowedGroups_def run_defs
          validateString_def validateFunction_def validatePositiveInteger_def)
  then have "build (configure port_70000_calls new_Factory) = Inl RangeError"
    by (simp add: build_def new_Bot_def new_TeamSpeakClient_def)
  then show ?thesis by (simp add: port_70000_settings)
qed

section \<open>The permission check\<close>

lemma validated_groups_never_match:
  "first_failure (map (\<lambda>it. validatePositiveInteger it m) xs) = Inr () \<Longrightarrow>
   filter (\<lambda>x. list_ex (\<lambda>g. sameValueZero x (Prim (PStr g))) groupIds) xs = []"
proof (induction xs)
  case Nil
  then show ?case by simp
next
  case (Cons x xs)
  from Cons.prems have "validatePositiveInteger x m = Inr ()"
    by (simp split: sum.splits)
  then obtain r where "x = Prim (PNum r)"
    by (auto simp: validatePositiveInteger_def split: jsval.splits prim.splits)
  moreover from Cons have "filter (\<lambda>x. list_ex (\<lambda>g. sameValueZero x (Prim (PStr g))) groupIds) xs = []"
    by (simp split: sum.splits)
  ultimately show ?case by (simp add: list_ex_iff)
qed

lemma hasPermission_validated_groups:
  assumes "accepted (WithAllowedGroups (JArr xs))" and "xs \<noteq> []"
    and "b_allowedGroupIds (self s) = xs"
    and "tr (sent (trace s) @ [\<lparr>cmd = ''clientinfo'', payload = [(''clid'', Prim clid)],
            options = [''groups'']\<rparr>]) = Inr (Some r)"
    and "map_of r ''client_servergroups'' = Some g"
  shows "fst (hasPermission tr clid s) = Inr False"
proof -
  from assms(1) have "first_failure (map (\<lambda>it. validatePositiveInteger it ''Invalid group ID'') xs) = Inr ()"
    by (simp add: accepted_def withAllowedGroups_def run_defs forEach_check split: sum.splits)
  then have "intersection xs gs = []" for gs
    by (simp add: intersection_def validated_groups_never_match)
  with assms(2-) show ?thesis
    by (simp add: hasPermission_def andThen_def send_eq returns_def)
qed

text \<open>
  C1. With allowed groups \<open>[5, 7]\<close>, which the builder accepts, and a client whose groups
  the transport reports as \<open>"3,7"\<close>, the reported groups are split into the strings \<open>"3"\<close>
  and \<open>"7"\<close>, and \<open>hasPermission\<close> answers false: the number 7 is not the same value as
  the string \<open>"7"\<close>. The lemma before shows that this happens for every non-empty list of groups
  that the builder accepts and every client.
\<close>

theorem hasPermission_5_7_client_3_7:
  "accepted (WithAllowedGroups (JArr [Prim (PNum 5), Prim (PNum 7)])) \<and>
   split_on CHR '','' (toString (TStr ''3,7'')) = [''3'', ''7''] \<and>
   fst (hasPermission (\<lambda>_. Inr (Some [(''client_servergroups'', TStr ''3,7'')])) (PNum 42)
         \<lparr>self = example_bot\<lparr>b_allowedGroupIds := [Prim (PNum 5), Prim (PNum 7)]\<rparr>, trace = []\<rparr>)
     = Inr False"
  by (simp add: accepted_def withAllowedGroups_def run_defs validatePositiveInteger_def
        hasPermission_def send_eq intersection_def)

text \<open>
  C2. With an empty list of allowed groups, \<open>hasPermission\<close> answers true whatever groups
  the transport reports for the client, the empty string included.
\<close>

theorem hasPermission_no_groups_configured:
  assumes "b_allowedGroupIds (self s) = []"
    and "tr (sent (trace s) @ [\<lparr>cmd = ''clientinfo'', payload = [(''clid'', Prim clid)],
            options = [''groups'']\<rparr>]) = Inr (Some r)"
    and "map_of r ''client_servergroups'' = Some g"
  shows "fst (hasPermission tr clid s) = Inr True"
  using assms by (simp add: hasPermission_def andThen_def send_eq returns_def)

theorem hasPermission_no_groups_configured_witness:
  "b_allowedGroupIds (self example_session) = [] \<and>
   fst (hasPermission (\<lambda>_. Inr (Some [(''client_servergroups'', TStr [])])) (PNum 42) example_session)
     = Inr True \<and>
   fst (hasPermission (\<lambda>_. Inr (Some [(''client_servergroups'', TNum 8)])) (PNum 42) example_session)
     = Inr True"
proof -
  have 1: "b_allowedGroupIds (self example_session) = []"
    by (simp add: example_session_def example_bot_def)
  show ?thesis
    using 1
      hasPermission_no_groups_configured [OF 1, of "\<lambda>_. Inr (Some [(''client_servergroups'', TStr [])])"
        "PNum 42" "[(''client_servergroups'', TStr [])]" "TStr []"]
      hasPermission_no_groups_configured [OF 1, of "\<lambda>_. Inr (Some [(''client_servergroups'', TNum 8)])"
        "PNum 42" "[(''client_servergroups'', TNum 8)]" "TNum 8"]
    by simp
qed

section \<open>The handshake\<close>

text \<open>
  C5. \<open>start\<close> sends the six requests of the handshake in their order, each only after the
  transport answered the one before with a response. If the answers to the first \<open>k\<close> requests
  are responses and the answer to the next one is a rejection, \<open>start\<close> is rejected with that
  error, exactly \<open>k + 1\<close> requests were sent and no keep-alive was started. If \<open>whoami\<close>
  is answered without data, the default client id of the move cannot be read and \<open>start\<close> is
  rejected with a TypeError after four requests. If all six are answered with responses, the
  answer to \<open>whoami\<close> is stored and the keep-alive, with period 60000, is started last.
\<close>

theorem start_sequential:
  fixes x :: "nat \<Rightarrow> response"
  shows
  "(k < 6 \<and>
    (\<forall>i<k. tr (sent (trace s) @ take (Suc i) (handshake (self s) own)) = Inr (x i)) \<and>
    (3 < k \<longrightarrow> x 3 = Some w \<and> own = prim_of (map_of w ''client_id'')) \<and>
    tr (sent (trace s) @ take (Suc k) (handshake (self s) own)) = Inl e
    \<longrightarrow> fst (start tr s) = Inl e \<and>
        trace (snd (start tr s)) =
          trace s @ [Listening ''clientmoved'', Listening ''cliententerview''] @
          map Sent (take (Suc k) (handshake (self s) own)))
   \<and> ((\<forall>i<4. tr (sent (trace s) @ take (Suc i) (handshake (self s) own)) = Inr (x i)) \<and>
      x 3 = None
      \<longrightarrow> fst (start tr s) = Inl TypeError \<and>
          trace (snd (start tr s)) =
            trace s @ [Listening ''clientmoved'', Listening ''cliententerview''] @
            map Sent (take 4 (handshake (self s) own)))
   \<and> ((\<forall>i<6. tr (sent (trace s) @ take (Suc i) (handshake (self s) own)) = Inr (x i)) \<and>
      x 3 = Some w \<and> own = prim_of (map_of w ''client_id'')
      \<longrightarrow> start tr s =
            (Inr (), s\<lparr>self := (self s)\<lparr>whoami := Some w\<rparr>,
                       trace := trace s @ [Listening ''clientmoved'', Listening ''cliententerview''] @
                                map Sent (handshake (self s) own) @ [KeepAlive 60000]\<rparr>))"
proof (intro conjI impI)
  let ?H = "handshake (self s) own"
  assume a: "k < 6 \<and>
    (\<forall>i<k. tr (sent (trace s) @ take (Suc i) ?H) = Inr (x i)) \<and>
    (3 < k \<longrightarrow> x 3 = Some w \<and> own = prim_of (map_of w ''client_id'')) \<and>
    tr (sent (trace s) @ take (Suc k) ?H) = Inl e"
  then have h: "\<And>i. i < k \<Longrightarrow> tr (sent (trace s) @ take (Suc i) ?H) = Inr (x i)"
    and f: "tr (sent (trace s) @ take (Suc k) ?H) = Inl e"
    and o: "3 < k \<Longrightarrow> x 3 = Some w \<and> own = prim_of (map_of w ''client_id'')"
    by simp_all
  from a consider "k = 0" | "k = 1" | "k = 2" | "k = 3" | "k = 4" | "k = 5"
    by arith
  then have "fst (start tr s) = Inl e \<and>
        trace (snd (start tr s)) =
          trace s @ [Listening ''clientmoved'', Listening ''cliententerview''] @
          map Sent (take (Suc k) ?H)"
  proof cases
    case 1
    from f 1 have "tr (sent (trace s) @ take (Suc 0) ?H) = Inl e" by (simp add: eval_nat_numeral)
    from start_fail0 [where tr = tr and s = s and own = own, OF this] 1
    show ?thesis by (simp add: eval_nat_numeral)
  next
    case 2
    from h [of 0] o 2 have h0: "tr (sent (trace s) @ take (Suc 0) ?H) = Inr (x 0)" by (simp add: eval_nat_numeral)
    from f 2 have "tr (sent (trace s) @ take (Suc (Suc 0)) ?H) = Inl e" by (simp add: eval_nat_numeral)
    from start_fail1 [where tr = tr and s = s and own = own, OF h0 this] 2
    show ?thesis by (simp add: eval_nat_numeral)
  next
    case 3
    from h [of 0] o 3 have h0: "tr (sent (trace s) @ take (Suc 0) ?H) = Inr (x 0)" by (simp add: eval_nat_numeral)
    from h [of 1] o 3 have h1: "tr (sent (trace s) @ take (Suc (Suc 0)) ?H) = Inr (x 1)" by (simp add: eval_nat_numeral)
    from f 3 have "tr (sent (trace s) @ take (Suc (Suc (Suc 0))) ?H) = Inl e" by (simp add: eval_nat_numeral)
    from start_fail2 [where tr = tr and s = s and own = own, OF h0 h1 this] 3
    show ?thesis by (simp add: eval_nat_numeral)
  next
    case 4
    from h [of 0] o 4 have h0: "tr (sent (trace s) @ take (Suc 0) ?H) = Inr (x 0)" by (simp add: eval_nat_numeral)
    from h [of 1] o 4 have h1: "tr (sent (trace s) @ take (Suc (Suc 0)) ?H) = Inr (x 1)" by (simp add: eval_nat_numeral)
    from h [of 2] o 4 have h2: "tr (sent (trace s) @ take (Suc (Suc (Suc 0))) ?H) = Inr (x 2)" by (simp add: eval_nat_numeral)
    from f 4 have "tr (sent (trace s) @ take (Suc (Suc (Suc (Suc 0)))) ?H) = Inl e" by (simp add: eval_nat_numeral)
    from start_fail3 [where tr = tr and s = s and own = own, OF h0 h1 h2 this] 4
    show ?thesis by (simp add: eval_nat_numeral)
  next
    case 5
    from h [of 0] o 5 have h0: "tr (sent (trace s) @ take (Suc 0) ?H) = Inr (x 0)" by (simp add: eval_nat_numeral)
    from h [of 1] o 5 have h1: "tr (sent (trace s) @ take (Suc (Suc 0)) ?H) = Inr (x 1)" by (simp add: eval_nat_numeral)
    from h [of 2] o 5 have h2: "tr (sent (trace s) @ take (Suc (Suc (Suc 0))) ?H) = Inr (x 2)" by (simp add: eval_nat_numeral)
    from h [of 3] o 5 have h3: "tr (sent (trace s) @ take (Suc (Suc (Suc (Suc 0)))) ?H) = Inr (Some w)" by (simp add: eval_nat_numeral)
    from o 5 have own: "own = prim_of (map_of w ''client_id'')" by (simp add: eval_nat_numeral)
    from f 5 have "tr (sent (trace s) @ take (Suc (Suc (Suc (Suc (Suc 0))))) ?H) = Inl e" by (simp add: eval_nat_numeral)
    from start_fail4 [where tr = tr and s = s and own = own, OF h0 h1 h2 h3 own this] 5
    show ?thesis by (simp add: eval_nat_numeral)
  next
    case 6
    from h [of 0] o 6 have h0: "tr (sent (trace s) @ take (Suc 0) ?H) = Inr (x 0)" by (simp add: eval_nat_numeral)
    from h [of 1] o 6 have h1: "tr (sent (trace s) @ take (Suc (Suc 0)) ?H) = Inr (x 1)" by (simp add: eval_nat_numeral)
    from h [of 2] o 6 have h2: "tr (sent (trace s) @ take (Suc (Suc (Suc 0))) ?H) = Inr (x 2)" by (simp add: eval_nat_numeral)
    from h [of 3] o 6 have h3: "tr (sent (trace s) @ take (Suc (Suc (Suc (Suc 0)))) ?H) = Inr (Some w)" by (simp add: eval_nat_numeral)
    from o 6 have own: "own = prim_of (map_of w ''client_id'')" by (simp add: eval_nat_numeral)
    from h [of 4] o 6 have h4: "tr (sent (trace s) @ take (Suc (Suc (Suc (Suc (Suc 0))))) ?H) = Inr (x 4)" by (simp add: eval_nat_numeral)
    from f 6 have "tr (sent (trace s) @ take (Suc (Suc (Suc (Suc (Suc (Suc 0)))))) ?H) = Inl e" by (simp add: eval_nat_numeral)
    from start_fail5 [where tr = tr and s = s and own = own, OF h0 h1 h2 h3 own h4 this] 6
    show ?thesis by (simp add: eval_nat_numeral)
  qed
  then show "fst (start tr s) = Inl e"
    and "trace (snd (start tr s)) =
          trace s @ [Listening ''clientmoved'', Listening ''cliententerview''] @
          map Sent (take (Suc k) ?H)"
    by simp_all
next
  let ?H = "handshake (self s) own"
  assume a: "(\<forall>i<4. tr (sent (trace s) @ take (Suc i) ?H) = Inr (x i)) \<and> x 3 = None"
  then have h: "\<And>i. i < 4 \<Longrightarrow> tr (sent (trace s) @ take (Suc i) ?H) = Inr (x i)" by simp
  from h [of 0] a have h0: "tr (sent (trace s) @ take (Suc 0) ?H) = Inr (x 0)" by (simp add: eval_nat_numeral)
  from h [of 1] a have h1: "tr (sent (trace s) @ take (Suc (Suc 0)) ?H) = Inr (x 1)" by (simp add: eval_nat_numeral)
  from h [of 2] a have h2: "tr (sent (trace s) @ take (Suc (Suc (Suc 0))) ?H) = Inr (x 2)" by (simp add: eval_nat_numeral)
  from h [of 3] a have h3: "tr (sent (trace s) @ take (Suc (Suc (Suc (Suc 0)))) ?H) = Inr None" by (simp add: eval_nat_numeral)
  from start_nodata [where tr = tr and s = s and own = own, OF h0 h1 h2 h3]
  show "fst (start tr s) = Inl TypeError"
    and "trace (snd (start tr s)) =
            trace s @ [Listening ''clientmoved'', Listening ''cliententerview''] @
            map Sent (take 4 ?H)"
    by (simp_all add: eval_nat_numeral)
next
  let ?H = "handshake (self s) own"
  assume a: "(\<forall>i<6. tr (sent (trace s) @ take (Suc i) ?H) = Inr (x i)) \<and>
      x 3 = Some w \<and> own = prim_of (map_of w ''client_id'')"
  then have h: "\<And>i. i < 6 \<Longrightarrow> tr (sent (trace s) @ take (Suc i) ?H) = Inr (x i)" by blast
  from h [of 0] a have h0: "tr (sent (trace s) @ take (Suc 0) ?H) = Inr (x 0)" by (simp add: eval_nat_numeral)
  from h [of 1] a have h1: "tr (sent (trace s) @ take (Suc (Suc 0)) ?H) = Inr (x 1)" by (simp add: eval_nat_numeral)
  from h [of 2] a have h2: "tr (sent (trace s) @ take (Suc (Suc (Suc 0))) ?H) = Inr (x 2)" by (simp add: eval_nat_numeral)
  from h [of 3] a have h3: "tr (sent (trace s) @ take (Suc (Suc (Suc (Suc 0)))) ?H) = Inr (Some w)" by (simp add: eval_nat_numeral)
  from a have own: "own = prim_of (map_of w ''client_id'')" by (simp add: eval_nat_numeral)
  from h [of 4] a have h4: "tr (sent (trace s) @ take (Suc (Suc (Suc (Suc (Suc 0))))) ?H) = Inr (x 4)" by (simp add: eval_nat_numeral)
  from h [of 5] a have h5: "tr (sent (trace s) @ take (Suc (Suc (Suc (Suc (Suc (Suc 0)))))) ?H) = Inr (x 5)" by (simp add: eval_nat_numeral)
  from start_ok [where tr = tr and s = s and own = own, OF h0 h1 h2 h3 own h4 h5]
  show "start tr s =
            (Inr (), s\<lparr>self := (self s)\<lparr>whoami := Some w\<rparr>,
                       trace := trace s @ [Listening ''clientmoved'', Listening ''cliententerview''] @
                                map Sent ?H @ [KeepAlive 60000]\<rparr>)" .
qed

theorem start_sequential_witness:
  "start (\<lambda>_. Inr (Some [(''client_id'', TNum 1)])) \<lparr>self = example_bot, trace = []\<rparr> =
     (Inr (), \<lparr>self = example_bot\<lparr>whoami := Some [(''client_id'', TNum 1)]\<rparr>,
               trace = [Listening ''clientmoved'', Listening ''cliententerview''] @
                       map Sent (handshake example_bot (PNum 1)) @ [KeepAlive 60000]\<rparr>) \<and>
   fst (start (\<lambda>h. if length h = 2 then Inl (QueryError [(''id'', TNum 1024)]) else Inr None)
          \<lparr>self = example_bot, trace = []\<rparr>) = Inl (QueryError [(''id'', TNum 1024)]) \<and>
   trace (snd (start (\<lambda>h. if length h = 2 then Inl (QueryError [(''id'', TNum 1024)]) else Inr None)
          \<lparr>self = example_bot, trace = []\<rparr>)) =
     [Listening ''clientmoved'', Listening ''cliententerview'',
      Sent \<lparr>cmd = ''login'',
             payload = [(''client_login_name'', Prim (PStr ''serveradmin'')),
                        (''client_login_password'', Prim (PStr ''password''))],
             options = []\<rparr>,
      Sent \<lparr>cmd = ''use'', payload = [(''port'', Prim (PNum 9989))], options = []\<rparr>] \<and>
   fst (start (\<lambda>_. Inr None) \<lparr>self = example_bot, trace = []\<rparr>) = Inl TypeError"
proof -
  let ?s = "\<lparr>self = example_bot, trace = []\<rparr>"
  let ?w = "[(''client_id'', TNum 1)]"
  let ?ok = "\<lambda>_ :: request list. Inr (Some ?w) :: error + response"
  let ?bad = "\<lambda>h :: request list. if length h = 2 then Inl (QueryError [(''id'', TNum 1024)])
                else Inr None :: error + response"
  let ?none = "\<lambda>_ :: request list. Inr None :: error + response"
  have 1: "(\<forall>i<6. ?ok (sent (trace ?s) @ take (Suc i) (handshake (self ?s) (PNum 1))) = Inr (Some ?w)) \<and>
      Some ?w = Some ?w \<and> PNum 1 = prim_of (map_of ?w ''client_id'')"
    by simp
  have 2: "1 < (6::nat) \<and>
    (\<forall>i<1. ?bad (sent (trace ?s) @ take (Suc i) (handshake (self ?s) PUndefined)) = Inr None) \<and>
    (3 < (1::nat) \<longrightarrow> None = Some ?w \<and> PUndefined = prim_of (map_of ?w ''client_id'')) \<and>
    ?bad (sent (trace ?s) @ take (Suc 1) (handshake (self ?s) PUndefined)) = Inl (QueryError [(''id'', TNum 1024)])"
    by (simp add: handshake_def)
  have 3: "(\<forall>i<4. ?none (sent (trace ?s) @ take (Suc i) (handshake (self ?s) PUndefined)) = Inr None) \<and>
      None = (None :: response)"
    by simp
  note t1 = start_sequential [where tr = ?ok and s = ?s and own = "PNum 1" and w = ?w
      and x = "\<lambda>_. Some ?w", THEN conjunct2, THEN conjunct2, rule_format, OF 1]
  note t2 = start_sequential [where tr = ?bad and s = ?s and own = PUndefined and w = ?w
      and x = "\<lambda>_. None" and k = 1 and e = "QueryError [(''id'', TNum 1024)]",
      THEN conjunct1, rule_format, OF 2]
  note t3 = start_sequential [where tr = ?none and s = ?s and own = PUndefined
      and x = "\<lambda>_. None", THEN conjunct2, THEN conjunct1, rule_format, OF 3]
  show ?thesis
    using t1 t2 t3 by (simp add: handshake_def example_bot_def)
qed

text \<open>
  C6. When \<open>joinChannel\<close> gets a client id or the bot knows its own, it sends one
  \<open>clientmove\<close> request. The payload has no \<open>password\<close> field when no password was
  supplied, and has the field with the supplied value otherwise, the empty string included.
\<close>

theorem joinChannel_password:
  assumes "clid \<noteq> PUndefined \<or> whoami (self s) \<noteq> None"
  shows "\<exists>req. joinChannel tr cid clid pw s =
            (Inr (tr (sent (trace s) @ [req])), s\<lparr>trace := trace s @ [Sent req]\<rparr>) \<and>
          cmd req = ''clientmove'' \<and>
          map_of (payload req) ''cid'' = Some cid \<and>
          map_of (payload req) ''password'' = (if pw = PUndefined then None else Some (Prim pw))"
proof -
  have "\<exists>c. (if clid = PUndefined
      then (case whoami (self s) of
              None \<Rightarrow> Inl TypeError
            | Some w \<Rightarrow> Inr (prim_of (map_of w ''client_id'')))
      else Inr clid) = Inr c"
    using assms by (cases "whoami (self s)") auto
  then obtain c where c:
    "(if clid = PUndefined
      then (case whoami (self s) of
              None \<Rightarrow> Inl TypeError
            | Some w \<Rightarrow> Inr (prim_of (map_of w ''client_id'')))
      else Inr clid) = Inr c" ..
  let ?req = "\<lparr>cmd = ''clientmove'',
               payload = [(''cid'', cid), (''clid'', Prim c)] @
                         (if \<not> isUndefined pw then [(''password'', Prim pw)] else []),
               options = []\<rparr>"
  have "joinChannel tr cid clid pw s =
          (Inr (tr (sent (trace s) @ [?req])), s\<lparr>trace := trace s @ [Sent ?req]\<rparr>)"
    unfolding joinChannel_def c by (simp add: send_eq promise_def)
  moreover have "cmd ?req = ''clientmove''" by simp
  moreover have "map_of (payload ?req) ''cid'' = Some cid" by simp
  moreover have "map_of (payload ?req) ''password'' = (if pw = PUndefined then None else Some (Prim pw))"
    by (cases pw) simp_all
  ultimately show ?thesis by blast
qed

theorem joinChannel_password_witness:
  "trace (snd (joinChannel (\<lambda>_. Inr None) (Prim (PNum 1173)) PUndefined PUndefined example_session)) =
     [Sent \<lparr>cmd = ''clientmove'',
            payload = [(''cid'', Prim (PNum 1173)), (''clid'', Prim (PNum 1))], options = []\<rparr>] \<and>
   trace (snd (joinChannel (\<lambda>_. Inr None) (Prim (PNum 1173)) PUndefined (PStr []) example_session)) =
     [Sent \<lparr>cmd = ''clientmove'',
            payload = [(''cid'', Prim (PNum 1173)), (''clid'', Prim (PNum 1)),
                       (''password'', Prim (PStr []))], options = []\<rparr>] \<and>
   (\<exists>req. trace (snd (joinChannel (\<lambda>_. Inr None) (Prim (PNum 1173)) PUndefined PUndefined example_session)) =
            [Sent req] \<and> map_of (payload req) ''password'' = None) \<and>
   (\<exists>req. trace (snd (joinChannel (\<lambda>_. Inr None) (Prim (PNum 1173)) PUndefined (PStr []) example_session)) =
            [Sent req] \<and> map_of (payload req) ''password'' = Some (Prim (PStr [])))"
proof -
  have w: "PUndefined \<noteq> PUndefined \<or> whoami (self example_session) \<noteq> None"
    by (simp add: example_session_def)
  have t: "trace example_session = []"
    by (simp add: example_session_def)
  have 1: "trace (snd (joinChannel (\<lambda>_. Inr None) (Prim (PNum 1173)) PUndefined PUndefined example_session)) =
     [Sent \<lparr>cmd = ''clientmove'',
            payload = [(''cid'', Prim (PNum 1173)), (''clid'', Prim (PNum 1))], options = []\<rparr>]"
    by (simp add: joinChannel_def send_eq promise_def example_session_def)
  have 2: "trace (snd (joinChannel (\<lambda>_. Inr None) (Prim (PNum 1173)) PUndefined (PStr []) example_session)) =
     [Sent \<lparr>cmd = ''clientmove'',
            payload = [(''cid'', Prim (PNum 1173)), (''clid'', Prim (PNum 1)),
                       (''password'', Prim (PStr []))], options = []\<rparr>]"
    by (simp add: joinChannel_def send_eq promise_def example_session_def)
  have 3: "\<exists>req. trace (snd (joinChannel (\<lambda>_. Inr None) (Prim (PNum 1173)) PUndefined PUndefined example_session)) =
            [Sent req] \<and> map_of (payload req) ''password'' = None"
    using joinChannel_password [OF w, of "\<lambda>_. Inr None" "Prim (PNum 1173)" PUndefined] t
    by auto
  have 4: "\<exists>req. trace (snd (joinChannel (\<lambda>_. Inr None) (Prim (PNum 1173)) PUndefined (PStr []) example_session)) =
            [Sent req] \<and> map_of (payload req) ''password'' = Some (Prim (PStr []))"
    using joinChannel_password [OF w, of "\<lambda>_. Inr None" "Prim (PNum 1173)" "PStr []"] t
    by auto
  from 1 2 3 4 show ?thesis by blast
qed

section \<open>The channel guard\<close>

text \<open>
  C3. An enter-view event into the configured channel makes the bot send exactly one request,
  the kick of that client with reason message \<open>Channel not allowed\<close>: no group query, no
  action. An enter-view event for another channel changes nothing.
\<close>

theorem enter_view_kicks:
  "onEnterView tr ev s =
     (if strict_eq (prim_of (map_of ev ''ctid'')) (b_channelId (self s))
      then (Inr (Some (tr (sent (trace s) @
                [\<lparr>cmd = ''clientkick'',
                  payload = [(''clid'', Prim (prim_of (map_of ev ''clid''))),
                             (''reasonid'', Prim (PNum 4)),
                             (''reasonmsg'', Prim (PStr ''Channel not allowed''))],
                  options = []\<rparr>]))),
            s\<lparr>trace := trace s @
                [Sent \<lparr>cmd = ''clientkick'',
                       payload = [(''clid'', Prim (prim_of (map_of ev ''clid''))),
                                  (''reasonid'', Prim (PNum 4)),
                                  (''reasonmsg'', Prim (PStr ''Channel not allowed''))],
                       options = []\<rparr>]\<rparr>)
      else (Inr None, s))"
  by (simp add: onEnterView_def kickClient_def send_eq promise_def run_defs)

theorem enter_view_kicks_witness:
  "trace (snd (onEnterView (\<lambda>_. Inr None) [(''ctid'', TNum 1173), (''clid'', TNum 42)] example_session)) =
     [Sent \<lparr>cmd = ''clientkick'',
            payload = [(''clid'', Prim (PNum 42)), (''reasonid'', Prim (PNum 4)),
                       (''reasonmsg'', Prim (PStr ''Channel not allowed''))],
            options = []\<rparr>] \<and>
   onEnterView (\<lambda>_. Inr None) [(''ctid'', TNum 7), (''clid'', TNum 42)] example_session =
     (Inr None, example_session)"
  using enter_view_kicks [of "\<lambda>_. Inr None" "[(''ctid'', TNum 1173), (''clid'', TNum 42)]" example_session]
    enter_view_kicks [of "\<lambda>_. Inr None" "[(''ctid'', TNum 7), (''clid'', TNum 42)]" example_session]
  by (simp add: example_session_def example_bot_def)

text \<open>
  C7. A move event whose destination is not the configured channel, or whose client is the bot
  itself, leaves the session as it was: no request is sent, so no permission check, and no action
  is invoked.
\<close>

theorem move_elsewhere_or_self_ignored:
  assumes "\<not> strict_eq (prim_of (map_of ev ''ctid'')) (b_channelId (self s)) \<or>
           (\<exists>w. whoami (self s) = Some w \<and> prim_of (map_of ev ''clid'') = prim_of (map_of w ''client_id''))"
  shows "onClientMove tr ev s = (Inr (), s)"
  using assms by (auto simp: onClientMove_def returns_def)

theorem move_elsewhere_or_self_ignored_witness:
  "onClientMove (\<lambda>_. Inr None) [(''ctid'', TNum 7), (''clid'', TNum 42)] example_session =
     (Inr (), example_session) \<and>
   onClientMove (\<lambda>_. Inr None) [(''ctid'', TNum 1173), (''clid'', TNum 1)] example_session =
     (Inr (), example_session)"
proof -
  have 1: "\<not> strict_eq (prim_of (map_of [(''ctid'', TNum 7), (''clid'', TNum 42)] ''ctid''))
              (b_channelId (self example_session)) \<or>
           (\<exists>w. whoami (self example_session) = Some w \<and>
              prim_of (map_of [(''ctid'', TNum 7), (''clid'', TNum 42)] ''clid'') = prim_of (map_of w ''client_id''))"
    by (simp add: example_session_def example_bot_def)
  have 2: "\<not> strict_eq (prim_of (map_of [(''ctid'', TNum 1173), (''clid'', TNum 1)] ''ctid''))
              (b_channelId (self example_session)) \<or>
           (\<exists>w. whoami (self example_session) = Some w \<and>
              prim_of (map_of [(''ctid'', TNum 1173), (''clid'', TNum 1)] ''clid'') = prim_of (map_of w ''client_id''))"
    by (simp add: example_session_def example_bot_def)
  from move_elsewhere_or_self_ignored [OF 1] move_elsewhere_or_self_ignored [OF 2]
  show ?thesis by simp
qed

lemma stepD_self: "step P s s' \<Longrightarrow> self s' = self s"
  by (simp add: step_def)

lemma promise_then: "andThen (promise m) f s = f (fst (m s)) (snd (m s))"
  by (cases "m s") (simp add: andThen_def promise_def)

lemma emit_self: "self (snd (emit tr ev s)) = self s"
  by (rule stepD_self) (rule extendsD [OF extends_emit])

lemma onClientMove_returns: "whoami (self s) \<noteq> None \<Longrightarrow> fst (onClientMove tr ev s) = Inr ()"
  by (auto simp: onClientMove_def Let_def promise_then returns_def)

lemma onEnterView_returns: "\<exists>r. fst (onEnterView tr ev s) = Inr r"
  by (simp add: onEnterView_def promise_then returns_def)

lemma emit_returns: "whoami (self s) \<noteq> None \<Longrightarrow> fst (emit tr ev s) = Inr ()"
  using onEnterView_returns [of tr "snd ev" s]
  by (cases "onEnterView tr (snd ev) s")
     (auto simp: emit_def onClientMove_returns andThen_def returns_def)

lemma event_loop_returns: "whoami (self s) \<noteq> None \<Longrightarrow> fst (event_loop tr evs s) = Inr ()"
  unfolding event_loop_def
proof (induction evs arbitrary: s)
  case Nil
  then show ?case by (simp add: returns_def)
next
  case (Cons ev evs)
  obtain s' where e: "emit tr ev s = (Inr (), s')"
    using emit_returns [OF Cons.prems, of tr ev] by (cases "emit tr ev s") simp
  then have "self s' = self s" using emit_self [of tr ev s] by simp
  with Cons e show ?case by (simp add: andThen_def)
qed

lemma forEach_append:
  "forEach (xs @ ys) f s =
     (case forEach xs f s of (Inl e, s') \<Rightarrow> (Inl e, s') | (Inr u, s') \<Rightarrow> forEach ys f s')"
  by (induction xs arbitrary: s) (auto simp: returns_def andThen_def split: prod.splits sum.splits)

lemma event_loop_append:
  assumes "whoami (self s) \<noteq> None"
  shows "event_loop tr (evs @ evs') s = event_loop tr evs' (snd (event_loop tr evs s))"
  using event_loop_returns [OF assms, of tr evs]
  by (cases "event_loop tr evs s") (simp add: event_loop_def forEach_append)

lemma runOp_self: "self (snd (runOp tr x s)) = self s"
  by (rule stepD_self) (rule extendsD [OF extends_runOp])

lemma runOp_returns: "whoami (self s) \<noteq> None \<Longrightarrow> fst (runOp tr x s) = Inr ()"
  by (cases x)
     (auto simp: promise_then joinChannel_def andThen_def promise_def returns_def
        split: prod.splits)

lemma runOps_return: "whoami (self s) \<noteq> None \<Longrightarrow> fst (forEach ops (runOp tr) s) = Inr ()"
proof (induction ops arbitrary: s)
  case Nil
  then show ?case by (simp add: returns_def)
next
  case (Cons x ops)
  obtain s' where e: "runOp tr x s = (Inr (), s')"
    using runOp_returns [OF Cons.prems, of tr x] by (cases "runOp tr x s") simp
  then have "self s' = self s" using runOp_self [of tr x s] by simp
  with Cons e show ?case by (simp add: andThen_def)
qed

lemma call_throws:
  assumes "whoami (self s) \<noteq> None" and "snd (h clid) = Some e"
  shows "fst (call tr name (JFun h) clid s) = Inl e"
proof -
  let ?s1 = "s\<lparr>trace := trace s @ [Invoked name clid]\<rparr>"
  have "whoami (self ?s1) \<noteq> None" using assms(1) by simp
  then have "fst (forEach (fst (h clid)) (runOp tr) ?s1) = Inr ()" by (rule runOps_return)
  then show ?thesis
    using assms(2)
    by (cases "forEach (fst (h clid)) (runOp tr) ?s1")
       (simp add: call_def effect_def andThen_def assign_def throws_def)
qed

lemma hasPermission_self: "self (snd (hasPermission tr clid s)) = self s"
  by (rule stepD_self) (rule extendsD [OF extends_hasPermission])

lemma onClientMove_qualifying:
  assumes "strict_eq (prim_of (map_of ev ''ctid'')) (b_channelId (self s))"
    and "whoami (self s) = Some w"
    and "prim_of (map_of ev ''clid'') \<noteq> prim_of (map_of w ''client_id'')"
  shows "onClientMove tr ev s =
     (Inr (), snd (orElse
        (andThen (hasPermission tr (prim_of (map_of ev ''clid''))) (\<lambda>allowed s'.
           call tr (if allowed then ''success'' else ''noPerms'')
             ((if allowed then success else noPerms) (b_actions (self s')))
             (prim_of (map_of ev ''clid'')) s'))
        (\<lambda>err. effect (Logged (prim_of (map_of ev ''clid'')) err)) s))"
  using assms
  by (simp add: onClientMove_def Let_def promise_then returns_def)

text \<open>
  C8. For a move event of another client into the configured channel: if the group query is
  rejected, the bot sent that query and logged the error, and did nothing else, so no action ran;
  if the action that is called throws, the listener still returns and the error is logged last.
  Once the bot knows its own identity, no event makes a listener throw: the delivery of any
  sequence of events returns, and the events that follow are handled from the state left behind.
\<close>

theorem move_errors_are_caught:
  "(strict_eq (prim_of (map_of ev ''ctid'')) (b_channelId (self s)) \<and>
    whoami (self s) = Some w \<and>
    prim_of (map_of ev ''clid'') \<noteq> prim_of (map_of w ''client_id'') \<and>
    tr (sent (trace s) @ [\<lparr>cmd = ''clientinfo'',
          payload = [(''clid'', Prim (prim_of (map_of ev ''clid'')))], options = [''groups'']\<rparr>]) = Inl e
    \<longrightarrow> onClientMove tr ev s =
          (Inr (), s\<lparr>trace := trace s @
             [Sent \<lparr>cmd = ''clientinfo'',
                    payload = [(''clid'', Prim (prim_of (map_of ev ''clid'')))], options = [''groups'']\<rparr>,
              Logged (prim_of (map_of ev ''clid'')) e]\<rparr>))
   \<and> (strict_eq (prim_of (map_of ev ''ctid'')) (b_channelId (self s)) \<and>
      whoami (self s) = Some w \<and>
      prim_of (map_of ev ''clid'') \<noteq> prim_of (map_of w ''client_id'') \<and>
      fst (hasPermission tr (prim_of (map_of ev ''clid'')) s) = Inr allowed \<and>
      (if allowed then success else noPerms) (b_actions (self s)) = JFun h \<and>
      snd (h (prim_of (map_of ev ''clid''))) = Some e'
      \<longrightarrow> fst (onClientMove tr ev s) = Inr () \<and>
          last (trace (snd (onClientMove tr ev s))) = Logged (prim_of (map_of ev ''clid'')) e')
   \<and> (whoami (self s) \<noteq> None
      \<longrightarrow> fst (event_loop tr evs s) = Inr () \<and>
          event_loop tr (evs @ evs') s = event_loop tr evs' (snd (event_loop tr evs s)))"
proof (intro conjI impI)
  assume a: "strict_eq (prim_of (map_of ev ''ctid'')) (b_channelId (self s)) \<and>
    whoami (self s) = Some w \<and>
    prim_of (map_of ev ''clid'') \<noteq> prim_of (map_of w ''client_id'') \<and>
    tr (sent (trace s) @ [\<lparr>cmd = ''clientinfo'',
          payload = [(''clid'', Prim (prim_of (map_of ev ''clid'')))], options = [''groups'']\<rparr>]) = Inl e"
  then show "onClientMove tr ev s =
          (Inr (), s\<lparr>trace := trace s @
             [Sent \<lparr>cmd = ''clientinfo'',
                    payload = [(''clid'', Prim (prim_of (map_of ev ''clid'')))], options = [''groups'']\<rparr>,
              Logged (prim_of (map_of ev ''clid'')) e]\<rparr>)"
    by (simp add: onClientMove_qualifying hasPermission_def send_eq effect_def run_defs)
next
  let ?c = "prim_of (map_of ev ''clid'')"
  assume a: "strict_eq (prim_of (map_of ev ''ctid'')) (b_channelId (self s)) \<and>
      whoami (self s) = Some w \<and>
      prim_of (map_of ev ''clid'') \<noteq> prim_of (map_of w ''client_id'') \<and>
      fst (hasPermission tr (prim_of (map_of ev ''clid'')) s) = Inr allowed \<and>
      (if allowed then success else noPerms) (b_actions (self s)) = JFun h \<and>
      snd (h (prim_of (map_of ev ''clid''))) = Some e'"
  obtain s1 where p: "hasPermission tr ?c s = (Inr allowed, s1)"
    using a by (cases "hasPermission tr ?c s") simp
  then have self1: "self s1 = self s" using hasPermission_self [of tr ?c s] by simp
  let ?name = "if allowed then ''success'' else ''noPerms''"
  have "fst (call tr ?name (JFun h) ?c s1) = Inl e'"
    using a self1 by (intro call_throws) simp_all
  then obtain s2 where c: "call tr ?name (JFun h) ?c s1 = (Inl e', s2)"
    by (cases "call tr ?name (JFun h) ?c s1") simp
  have "onClientMove tr ev s = (Inr (), s2\<lparr>trace := trace s2 @ [Logged ?c e']\<rparr>)"
    using a p c self1
    by (simp add: onClientMove_qualifying orElse_def andThen_def effect_def assign_def)
  then show "fst (onClientMove tr ev s) = Inr ()"
    and "last (trace (snd (onClientMove tr ev s))) = Logged (prim_of (map_of ev ''clid'')) e'"
    by simp_all
next
  assume "whoami (self s) \<noteq> None"
  then show "fst (event_loop tr evs s) = Inr ()"
    and "event_loop tr (evs @ evs') s = event_loop tr evs' (snd (event_loop tr evs s))"
    by (rule event_loop_returns, rule event_loop_append)
qed

theorem move_errors_are_caught_witness:
  "onClientMove (\<lambda>_. Inl (QueryError [(''id'', TNum 512)]))
       [(''ctid'', TNum 1173), (''clid'', TNum 42)] example_session =
     (Inr (), example_session\<lparr>trace :=
        [Sent \<lparr>cmd = ''clientinfo'', payload = [(''clid'', Prim (PNum 42))], options = [''groups'']\<rparr>,
         Logged (PNum 42) (QueryError [(''id'', TNum 512)])]\<rparr>) \<and>
   last (trace (snd (onClientMove (\<lambda>_. Inr (Some [(''client_servergroups'', TNum 8)]))
       [(''ctid'', TNum 1173), (''clid'', TNum 42)]
       (example_session\<lparr>self := (self example_session)\<lparr>b_actions :=
          \<lparr>success = JFun (\<lambda>c. ([KickClient c (PStr ''bye'')], Some (Error ''boom''))),
           noPerms = JFun example_noPerms\<rparr>\<rparr>\<rparr>)))) = Logged (PNum 42) (Error ''boom'') \<and>
   fst (event_loop (\<lambda>_. Inl (QueryError [(''id'', TNum 512)]))
         [(''clientmoved'', [(''ctid'', TNum 1173), (''clid'', TNum 42)]),
          (''cliententerview'', [(''ctid'', TNum 1173), (''clid'', TNum 43)])] example_session) = Inr ()"
proof -
  let ?ev = "[(''ctid'', TNum 1173), (''clid'', TNum 42)]"
  let ?w = "[(''client_id'', TNum 1)]"
  let ?bad = "\<lambda>_ :: request list. Inl (QueryError [(''id'', TNum 512)]) :: error + response"
  let ?good = "\<lambda>_ :: request list. Inr (Some [(''client_servergroups'', TNum 8)]) :: error + response"
  let ?h = "\<lambda>c. ([KickClient c (PStr ''bye'')], Some (Error ''boom''))"
  let ?s = "example_session\<lparr>self := (self example_session)\<lparr>b_actions :=
          \<lparr>success = JFun ?h, noPerms = JFun example_noPerms\<rparr>\<rparr>\<rparr>"
  have 1: "strict_eq (prim_of (map_of ?ev ''ctid'')) (b_channelId (self example_session)) \<and>
    whoami (self example_session) = Some ?w \<and>
    prim_of (map_of ?ev ''clid'') \<noteq> prim_of (map_of ?w ''client_id'') \<and>
    ?bad (sent (trace example_session) @ [\<lparr>cmd = ''clientinfo'',
          payload = [(''clid'', Prim (prim_of (map_of ?ev ''clid'')))], options = [''groups'']\<rparr>])
      = Inl (QueryError [(''id'', TNum 512)])"
    by (simp add: example_session_def example_bot_def)
  have 2: "strict_eq (prim_of (map_of ?ev ''ctid'')) (b_channelId (self ?s)) \<and>
      whoami (self ?s) = Some ?w \<and>
      prim_of (map_of ?ev ''clid'') \<noteq> prim_of (map_of ?w ''client_id'') \<and>
      fst (hasPermission ?good (prim_of (map_of ?ev ''clid'')) ?s) = Inr True \<and>
      (if True then success else noPerms) (b_actions (self ?s)) = JFun ?h \<and>
      snd (?h (prim_of (map_of ?ev ''clid''))) = Some (Error ''boom'')"
    by (simp add: example_session_def example_bot_def hasPermission_def send_eq run_defs)
  have 3: "whoami (self example_session) \<noteq> None"
    by (simp add: example_session_def)
  have a: "prim_of (map_of ?ev ''clid'') = PNum 42" by simp
  have t: "trace example_session = []" by (simp add: example_session_def)
  note thm1 = move_errors_are_caught [where ev = ?ev and s = example_session and w = ?w and tr = ?bad
        and e = "QueryError [(''id'', TNum 512)]", THEN conjunct1, rule_format, OF 1]
  note thm2 = move_errors_are_caught [where ev = ?ev and s = ?s and w = ?w and tr = ?good
        and allowed = True and h = ?h and e' = "Error ''boom''",
        THEN conjunct2, THEN conjunct1, rule_format, OF 2]
  note thm3 = move_errors_are_caught [where s = example_session and tr = ?bad
        and evs = "[(''clientmoved'', [(''ctid'', TNum 1173), (''clid'', TNum 42)]),
          (''cliententerview'', [(''ctid'', TNum 1173), (''clid'', TNum 43)])]",
        THEN conjunct2, THEN conjunct2, rule_format, OF 3, THEN conjunct1]
  show ?thesis
    using thm1 thm2 thm3 by (simp add: a t)
qed

lemma example_move:
  "onClientMove (\<lambda>_. Inr (Some [(''client_servergroups'', TNum 8)]))
       [(''ctid'', TNum 1173), (''clid'', TNum 42)] example_session =
   (Inr (), example_session\<lparr>trace :=
      [Sent \<lparr>cmd = ''clientinfo'', payload = [(''clid'', Prim (PNum 42))], options = [''groups'']\<rparr>,
       Invoked ''success'' (PNum 42),
       Sent \<lparr>cmd = ''clientpoke'',
              payload = [(''clid'', Prim (PNum 42)), (''msg'', Prim (PStr ''test success poke''))],
              options = []\<rparr>,
       Sent \<lparr>cmd = ''sendtextmessage'',
              payload = [(''target'', Prim (PNum 42)), (''targetmode'', Prim (PNum 1)),
                         (''msg'', Prim (PStr ''success''))],
              options = []\<rparr>,
       Sent \<lparr>cmd = ''clientkick'',
              payload = [(''clid'', Prim (PNum 42)), (''reasonid'', Prim (PNum 4)),
                         (''reasonmsg'', Prim (PStr ''success''))],
              options = []\<rparr>]\<rparr>)"
  by (simp add: onClientMove_def hasPermission_def call_def example_success_def sendPoke_def
        sendMessage_def kickClient_def effect_def send_eq promise_def run_defs Let_def
        example_session_def example_bot_def)

text \<open>
  C10. \<open>kickClient\<close> sends exactly the request \<open>clientkick\<close> with the client id,
  reason code 4 and the message. Whatever events are delivered, every kick request the bot sends
  while handling them, from the enter-view listener or from an action, has reason code 4.
\<close>

theorem kick_reason_is_4:
  "kickClient tr clid message s =
     (tr (sent (trace s) @
        [\<lparr>cmd = ''clientkick'',
          payload = [(''clid'', Prim clid), (''reasonid'', Prim (PNum 4)), (''reasonmsg'', Prim message)],
          options = []\<rparr>]),
      s\<lparr>trace := trace s @
        [Sent \<lparr>cmd = ''clientkick'',
               payload = [(''clid'', Prim clid), (''reasonid'', Prim (PNum 4)), (''reasonmsg'', Prim message)],
               options = []\<rparr>]\<rparr>)
   \<and> (\<exists>t. trace (snd (event_loop tr evs s)) = trace s @ t \<and> list_all kick_reason (sent t))"
proof
  show "kickClient tr clid message s =
     (tr (sent (trace s) @
        [\<lparr>cmd = ''clientkick'',
          payload = [(''clid'', Prim clid), (''reasonid'', Prim (PNum 4)), (''reasonmsg'', Prim message)],
          options = []\<rparr>]),
      s\<lparr>trace := trace s @
        [Sent \<lparr>cmd = ''clientkick'',
               payload = [(''clid'', Prim clid), (''reasonid'', Prim (PNum 4)), (''reasonmsg'', Prim message)],
               options = []\<rparr>]\<rparr>)"
    by (simp add: kickClient_def send_eq)
next
  have "step kick_reason s (snd (event_loop tr evs s))"
    by (rule extendsD [OF extends_event_loop])
  then show "\<exists>t. trace (snd (event_loop tr evs s)) = trace s @ t \<and> list_all kick_reason (sent t)"
    by (simp add: step_def)
qed

lemma example_loop:
  "trace (snd (event_loop (\<lambda>_. Inr (Some [(''client_servergroups'', TNum 8)]))
       [(''clientmoved'', [(''ctid'', TNum 1173), (''clid'', TNum 42)]),
        (''cliententerview'', [(''ctid'', TNum 1173), (''clid'', TNum 43)])] example_session)) =
     [Sent \<lparr>cmd = ''clientinfo'', payload = [(''clid'', Prim (PNum 42))], options = [''groups'']\<rparr>,
      Invoked ''success'' (PNum 42),
      Sent \<lparr>cmd = ''clientpoke'',
             payload = [(''clid'', Prim (PNum 42)), (''msg'', Prim (PStr ''test success poke''))],
             options = []\<rparr>,
      Sent \<lparr>cmd = ''sendtextmessage'',
             payload = [(''target'', Prim (PNum 42)), (''targetmode'', Prim (PNum 1)),
                        (''msg'', Prim (PStr ''success''))],
             options = []\<rparr>,
      Sent \<lparr>cmd = ''clientkick'',
             payload = [(''clid'', Prim (PNum 42)), (''reasonid'', Prim (PNum 4)),
                        (''reasonmsg'', Prim (PStr ''success''))],
             options = []\<rparr>,
      Sent \<lparr>cmd = ''clientkick'',
             payload = [(''clid'', Prim (PNum 43)), (''reasonid'', Prim (PNum 4)),
                        (''reasonmsg'', Prim (PStr ''Channel not allowed''))],
             options = []\<rparr>]"
  by (simp add: event_loop_def emit_def example_move andThen_def returns_def)
     (simp add: onEnterView_def kickClient_def send_eq promise_def andThen_def returns_def
        example_session_def example_bot_def)

theorem kick_reason_is_4_witness:
  "list_all kick_reason (sent (trace (snd (event_loop (\<lambda>_. Inr (Some [(''client_servergroups'', TNum 8)]))
       [(''clientmoved'', [(''ctid'', TNum 1173), (''clid'', TNum 42)]),
        (''cliententerview'', [(''ctid'', TNum 1173), (''clid'', TNum 43)])] example_session)))) \<and>
   length (filter (\<lambda>r. cmd r = ''clientkick'')
     (sent (trace (snd (event_loop (\<lambda>_. Inr (Some [(''client_servergroups'', TNum 8)]))
       [(''clientmoved'', [(''ctid'', TNum 1173), (''clid'', TNum 42)]),
        (''cliententerview'', [(''ctid'', TNum 1173), (''clid'', TNum 43)])] example_session))))) = 2"
proof -
  let ?tr = "\<lambda>_ :: request list. Inr (Some [(''client_servergroups'', TNum 8)]) :: error + response"
  let ?evs = "[(''clientmoved'', [(''ctid'', TNum 1173), (''clid'', TNum 42)]),
        (''cliententerview'', [(''ctid'', TNum 1173), (''clid'', TNum 43)])]"
  have t: "trace example_session = []" by (simp add: example_session_def)
  from kick_reason_is_4 [where tr = ?tr and evs = ?evs and s = example_session, THEN conjunct2]
  have "list_all kick_reason (sent (trace (snd (event_loop ?tr ?evs example_session))))"
    by (simp add: t)
  moreover have "length (filter (\<lambda>r. cmd r = ''clientkick'')
     (sent (trace (snd (event_loop ?tr ?evs example_session))))) = 2"
    by (simp add: example_loop)
  ultimately show ?thesis ..
qed

end
